theory Spec2Isabelle
  imports Complex_Main "HOL-Library.Word" "HOL-Library.Sublist" "HOL-Library.Log_Nat"
begin

section \<open>GPU resource names\<close>

text \<open>
  \<^verbatim>\<open>const GpuResourcePrefix = "gpu-"\<close>; a GPU resource is named by the prefix followed by
  the product, for example \<^verbatim>\<open>gpu-tesla-v100\<close>. Go strings are byte sequences, and so are
  the strings of the model.
\<close>

definition GpuResourcePrefix :: string where
  "GpuResourcePrefix = ''gpu-''"

text \<open>\<^verbatim>\<open>strings.HasPrefix(s, p)\<close> and \<^verbatim>\<open>strings.TrimPrefix(s, p)\<close> of the Go standard library.\<close>

definition HasPrefix :: "string \<Rightarrow> string \<Rightarrow> bool" where
  "HasPrefix s p = (length p \<le> length s \<and> take (length p) s = p)"

definition TrimPrefix :: "string \<Rightarrow> string \<Rightarrow> string" where
  "TrimPrefix s p = (if HasPrefix s p then drop (length p) s else s)"

definition NewGpuResource :: "string \<Rightarrow> string" where
  "NewGpuResource product = GpuResourcePrefix @ product"

definition IsGpuResource :: "string \<Rightarrow> bool" where
  "IsGpuResource resource = HasPrefix resource GpuResourcePrefix"

definition GetGpuResourceProduct :: "string \<Rightarrow> string" where
  "GetGpuResourceProduct resource = TrimPrefix resource GpuResourcePrefix"

section \<open>Billing records\<close>

text \<open>
  Modelled from the spec: the values of \<^verbatim>\<open>accountv1.Type\<close>, the type of the field
  \<^verbatim>\<open>Type\<close> of a billing record, which is declared in another package. The specification
  names the billing types consumption and transfer (\<^emph>\<open>a billing type (consumption vs.
  transfer, etc.)\<close>) and leaves the others open.
\<close>

datatype accountv1_Type = Consumption_Type | Transfer_Type | Other_Type int

text \<open>
  The structs of the ledger. \<^verbatim>\<open>time.Time\<close> is kept as a number of nanoseconds,
  \<^verbatim>\<open>BillingStatus\<close> is an \<^verbatim>\<open>int\<close> with the constants \<^verbatim>\<open>Unsettled\<close> and \<^verbatim>\<open>Settled\<close>,
  \<^verbatim>\<open>EnumUsedMap\<close> is \<^verbatim>\<open>map[uint8]int64\<close>, and a pointer to a sub-record is an option
  whose \<open>None\<close> is nil.
\<close>

type_synonym BillingStatus = int

definition Unsettled :: BillingStatus where
  "Unsettled = 0"

definition Settled :: BillingStatus where
  "Settled = 1"

type_synonym EnumUsedMap = "8 word \<rightharpoonup> 64 word"

record Payment =
  Method :: string
  UserID :: string
  Amount :: "64 word"
  TradeNO :: string
  CodeURL :: string

record Transfer =
  From :: string
  To :: string
  Amount :: "64 word"

record AppCost =
  Used :: EnumUsedMap
  UsedAmount :: EnumUsedMap
  Amount :: "64 word"
  Name :: string

record Billing =
  Time :: int
  OrderID :: string
  Type :: accountv1_Type
  Namespace :: string
  AppCosts :: "AppCost list"
  AppType :: "8 word"
  Amount :: "64 word"
  Owner :: string
  Status :: BillingStatus
  Payment :: "Payment option"
  Transfer :: "Transfer option"

text \<open>
  The comments of the struct say \<^verbatim>\<open>if type = Consumption, then payment is not nil\<close> and
  \<^verbatim>\<open>if type = Transfer, then transfer is not nil\<close>.
\<close>

text \<open>The sum of the amounts of a list of application costs, over the integers.\<close>

definition AppCosts_sum :: "AppCost list \<Rightarrow> int" where
  "AppCosts_sum costs = sum_list (map (\<lambda>c. sint (AppCost.Amount c)) costs)"

text \<open>
  Modelled from the spec: the construction of a billing record by the ledger, with its
  validation. The source file holds the declaration of the struct \<^verbatim>\<open>Billing\<close> and of its
  sub-records only; the code of the ledger that builds and receives billing records is
  not part of it. The specification (4.4, 7 and 8) says: \<^emph>\<open>Type = Consumption requires a
  non-nil Payment sub-record and Transfer must be nil; Type = Transfer requires a non-nil
  Transfer sub-record and Payment must be nil. Validate this invariant at construction
  time; reject (do not silently drop) a record violating it\<close>; \<^emph>\<open>Ledger invariant
  violation (wrong sub-record present for the declared type, or AppCost sum mismatch):
  rejected at construction; surfaced to the caller as a validation failure, never
  silently coerced\<close>; \<^emph>\<open>for any Billing with non-empty AppCost,
  Amount == sum(AppCost[i].Amount)\<close>. The construction takes the fields as a record and
  gives back either a validation failure or the record as it was given; the sum is the
  sum of the amounts as integers, as the specification words it.
\<close>

datatype validation_failure = WrongSubRecord | AppCostSumMismatch

definition NewBilling :: "Billing \<Rightarrow> validation_failure + Billing" where
  "NewBilling b =
     (if Billing.Type b = Consumption_Type
           \<and> (Billing.Payment b = None \<or> Billing.Transfer b \<noteq> None) then Inl WrongSubRecord
      else if Billing.Type b = Transfer_Type
           \<and> (Billing.Transfer b = None \<or> Billing.Payment b \<noteq> None) then Inl WrongSubRecord
      else if Billing.AppCosts b \<noteq> []
           \<and> sint (Billing.Amount b) \<noteq> AppCosts_sum (Billing.AppCosts b) then Inl AppCostSumMismatch
      else Inr b)"

text \<open>
  Billing records for the examples: the scenario of the specification, with the
  application costs 67000 and 16500 and the total 83500, as a consumption record with its
  payment, and the same amount as a transfer record.
\<close>

definition sample_payment :: Payment where
  "sample_payment =
     \<lparr>Method = ''wechat'', UserID = ''u1'', Amount = 83500, TradeNO = ''t-1'', CodeURL = ''''\<rparr>"

definition sample_transfer :: Transfer where
  "sample_transfer = \<lparr>From = ''u1'', To = ''u2'', Amount = 83500\<rparr>"

definition sample_app_costs :: "AppCost list" where
  "sample_app_costs =
     [\<lparr>Used = [0 \<mapsto> 1000], UsedAmount = [0 \<mapsto> 67000], Amount = 67000, Name = ''app1''\<rparr>,
      \<lparr>Used = [1 \<mapsto> 500], UsedAmount = [1 \<mapsto> 16500], Amount = 16500, Name = ''app2''\<rparr>]"

definition sample_billing :: Billing where
  "sample_billing =
     \<lparr>Time = 0, OrderID = ''order-1'', Type = Consumption_Type, Namespace = ''ns-1'',
      AppCosts = sample_app_costs, AppType = 2, Amount = 83500, Owner = ''u1'',
      Status = Unsettled, Payment = Some sample_payment, Transfer = None\<rparr>"

definition sample_transfer_billing :: Billing where
  "sample_transfer_billing =
     \<lparr>Time = 0, OrderID = ''order-2'', Type = Transfer_Type, Namespace = ''ns-1'',
      AppCosts = [], AppType = 0, Amount = 83500, Owner = ''u1'',
      Status = Unsettled, Payment = None, Transfer = Some sample_transfer\<rparr>"

section \<open>Property types and the registry\<close>

text \<open>
  \<^verbatim>\<open>resource.Quantity\<close> is a struct of the Kubernetes library:
  \<^verbatim>\<open>i int64Amount{value int64; scale Scale}\<close>, \<^verbatim>\<open>d infDecAmount{*inf.Dec}\<close>, the cached
  string \<^verbatim>\<open>s\<close> and the \<^verbatim>\<open>Format\<close>. The record has these fields, which \<^verbatim>\<open>==\<close> compares
  (a pointer is an address, \<open>None\<close> for nil), and next to them the \<^verbatim>\<open>int64\<close> that
  \<^verbatim>\<open>MilliValue()\<close> returns for the struct: the library computes it from the other fields,
  the model keeps it as the field \<open>milli\<close>. \<^verbatim>\<open>resource.Quantity{}\<close> is the zero value of the
  struct, whose milli-value is 0.
\<close>

record Quantity =
  i_value :: "64 word"
  i_scale :: "32 word"
  d_Dec :: "nat option"
  cached_s :: string
  Format :: string
  milli :: "64 word"

definition zeroQuantity :: Quantity where
  "zeroQuantity =
     \<lparr>i_value = 0, i_scale = 0, d_Dec = None, cached_s = '''', Format = '''', milli = 0\<rparr>"

definition MilliValue :: "Quantity \<Rightarrow> 64 word" where
  "MilliValue q = milli q"

text \<open>
  \<^verbatim>\<open>resource.NewMilliQuantity(value, format)\<close>: the amount \<open>value\<close> at scale \<open>- 3\<close>, whose
  milli-value is \<open>value\<close>.
\<close>

definition NewMilliQuantity :: "64 word \<Rightarrow> string \<Rightarrow> Quantity" where
  "NewMilliQuantity v format =
     \<lparr>i_value = v, i_scale = - 3, d_Dec = None, cached_s = '''', Format = format, milli = v\<rparr>"

record PropertyType =
  Name :: string
  Alias :: string
  Enum :: "8 word"
  PriceType :: string
  UnitPrice :: "64 word"
  EncryptUnitPrice :: string
  Unit :: Quantity
  UnitString :: string
  UnitPeriod :: string

record PropertyTypeLS =
  Types :: "PropertyType list"
  StringMap :: "string \<rightharpoonup> PropertyType"
  EnumMap :: "8 word \<rightharpoonup> PropertyType"

text \<open>A Go struct literal leaves the fields it does not name at their zero values.\<close>

definition zeroPropertyType :: PropertyType where
  "zeroPropertyType = \<lparr>Name = '''', Alias = '''', Enum = 0, PriceType = '''', UnitPrice = 0,
     EncryptUnitPrice = '''', Unit = zeroQuantity, UnitString = '''', UnitPeriod = ''''\<rparr>"

definition DefaultPropertyTypeList :: "PropertyType list" where
  "DefaultPropertyTypeList =
    [zeroPropertyType\<lparr>Name := ''cpu'', Enum := 0, PriceType := ''AVG'', UnitPrice := 67,
       UnitString := ''1m''\<rparr>,
     zeroPropertyType\<lparr>Name := ''memory'', Enum := 1, PriceType := ''AVG'', UnitPrice := 33,
       UnitString := ''1Mi''\<rparr>,
     zeroPropertyType\<lparr>Name := ''storage'', Enum := 2, PriceType := ''AVG'', UnitPrice := 2,
       UnitString := ''1Mi''\<rparr>,
     zeroPropertyType\<lparr>Name := ''network'', Enum := 3, PriceType := ''AVG'', UnitPrice := 781,
       UnitString := ''1Mi''\<rparr>]"

text \<open>
  The ways the code of this package stops without a result: \<^verbatim>\<open>resource.MustParse\<close>
  panics on a string that is not a quantity, a method call through a nil pointer panics,
  and the conversion of a \<^verbatim>\<open>float64\<close> outside the range of \<^verbatim>\<open>int64\<close> has no result that
  Go defines (it depends on the processor).
\<close>

datatype fault = MustParsePanic string | NilPointerDereference | ConversionOutOfRange

text \<open>
  The errors of \<^verbatim>\<open>decryptPrice\<close>: \<^verbatim>\<open>"encrypt %s unit price is empty"\<close> with the name of
  the entry, and \<^verbatim>\<open>"failed to decrypt %s unit price : %v"\<close> with the name and the error of
  \<^verbatim>\<open>crypto.DecryptInt64\<close>.
\<close>

datatype error = EncryptUnitPriceEmpty string | DecryptFailed string string

text \<open>
  One round of the loop of \<^verbatim>\<open>newPropertyTypeLS\<close> on \<^verbatim>\<open>types[i]\<close>: the unit string is
  parsed when the unit is the zero quantity and the string is not empty.
  \<^verbatim>\<open>resource.MustParse\<close> is a parameter: \<open>None\<close> is its panic.
\<close>

definition parseUnit :: "(string \<Rightarrow> Quantity option) \<Rightarrow> PropertyType \<Rightarrow> fault + PropertyType" where
  "parseUnit MustParse t =
     (if Unit t = zeroQuantity \<and> UnitString t \<noteq> ''''
      then (case MustParse (UnitString t) of
              None \<Rightarrow> Inl (MustParsePanic (UnitString t))
            | Some q \<Rightarrow> Inr (t\<lparr>Unit := q\<rparr>))
      else Inr t)"

text \<open>
  The loop \<^verbatim>\<open>for i := range types\<close> on the elements of the slice. The Go code writes the
  parsed unit into the array of the slice it was given, which \<^verbatim>\<open>ls.Types\<close> shares; the
  model carries the entries already visited in \<open>Types\<close>, which ends as the elements that
  the array then holds, and stores each visited entry under its enum and under its name.
\<close>

fun newPropertyTypeLS_loop ::
  "(string \<Rightarrow> Quantity option) \<Rightarrow> PropertyType list \<Rightarrow> PropertyTypeLS \<Rightarrow> fault + PropertyTypeLS" where
  "newPropertyTypeLS_loop MustParse [] ls = Inr ls"
| "newPropertyTypeLS_loop MustParse (t # ts) ls =
     (case parseUnit MustParse t of
        Inl p \<Rightarrow> Inl p
      | Inr t' \<Rightarrow> newPropertyTypeLS_loop MustParse ts
          (ls\<lparr>Types := Types ls @ [t'],
              EnumMap := (EnumMap ls)(Enum t' \<mapsto> t'),
              StringMap := (StringMap ls)(Name t' \<mapsto> t')\<rparr>))"

definition newPropertyTypeLS ::
  "(string \<Rightarrow> Quantity option) \<Rightarrow> PropertyType list \<Rightarrow> fault + PropertyTypeLS" where
  "newPropertyTypeLS MustParse types =
     newPropertyTypeLS_loop MustParse types
       \<lparr>Types = [], StringMap = Map.empty, EnumMap = Map.empty\<rparr>"

text \<open>
  \<^verbatim>\<open>decryptPrice\<close> on the elements of its slice: the result is the elements as the loop
  leaves them in the array, together with the error. It stops at the first entry whose
  encrypted price is empty or does not decrypt, the entries before it already carrying
  their decrypted price. \<^verbatim>\<open>crypto.DecryptInt64\<close> is a parameter.
\<close>

fun decryptPrice ::
  "(string \<Rightarrow> string + 64 word) \<Rightarrow> PropertyType list \<Rightarrow> PropertyType list \<times> error option" where
  "decryptPrice DecryptInt64 [] = ([], None)"
| "decryptPrice DecryptInt64 (t # ts) =
     (if EncryptUnitPrice t = '''' then (t # ts, Some (EncryptUnitPriceEmpty (Name t)))
      else (case DecryptInt64 (EncryptUnitPrice t) of
              Inl err \<Rightarrow> (t # ts, Some (DecryptFailed (Name t) err))
            | Inr price \<Rightarrow>
                (case decryptPrice DecryptInt64 ts of
                   (ts', e) \<Rightarrow> (t\<lparr>UnitPrice := price\<rparr> # ts', e))))"


record slice =
  ptr :: nat
  low :: nat
  len :: nat





text \<open>
  \<^verbatim>\<open>ConvertEnumUsedToString\<close> reads the registry \<^verbatim>\<open>DefaultPropertyTypeLS\<close>, passed here as
  \<open>ls\<close>. Indexing a Go map with a key it does not hold gives the zero value, whose
  \<^verbatim>\<open>Name\<close> is the empty string. The argument \<open>costs\<close> lists the entries of the Go map in the
  order the \<^verbatim>\<open>range\<close> loop visits them, which Go leaves open.
\<close>

definition EnumName :: "PropertyTypeLS \<Rightarrow> 8 word \<Rightarrow> string" where
  "EnumName ls k = (case EnumMap ls k of None \<Rightarrow> '''' | Some p \<Rightarrow> Name p)"

fun ConvertEnumUsedToString_loop ::
  "PropertyTypeLS \<Rightarrow> (8 word \<times> 64 word) list \<Rightarrow> (string \<rightharpoonup> 64 word) \<Rightarrow> (string \<rightharpoonup> 64 word)" where
  "ConvertEnumUsedToString_loop ls [] costsMap = costsMap"
| "ConvertEnumUsedToString_loop ls ((k, v) # costs) costsMap =
     ConvertEnumUsedToString_loop ls costs (costsMap(EnumName ls k \<mapsto> v))"

definition ConvertEnumUsedToString ::
  "PropertyTypeLS \<Rightarrow> (8 word \<times> 64 word) list \<Rightarrow> (string \<rightharpoonup> 64 word)" where
  "ConvertEnumUsedToString ls costs = ConvertEnumUsedToString_loop ls costs Map.empty"

text \<open>
  The two unit strings of the default list as \<^verbatim>\<open>resource.MustParse\<close> reads them: one
  thousandth, and \<open>2 ^ 20\<close> units. It stands for the library where a registry is built
  from the default list.
\<close>

definition MustParse_units :: "string \<Rightarrow> Quantity option" where
  "MustParse_units s =
     (if s = ''1m''
      then Some \<lparr>i_value = 1, i_scale = - 3, d_Dec = None, cached_s = ''1m'',
                  Format = ''DecimalSI'', milli = 1\<rparr>
      else if s = ''1Mi''
      then Some \<lparr>i_value = 1048576, i_scale = 0, d_Dec = None, cached_s = ''1Mi'',
                  Format = ''BinarySI'', milli = 1048576000\<rparr>
      else None)"

text \<open>
  \<^verbatim>\<open>var DefaultPropertyTypeLS = newPropertyTypeLS(DefaultPropertyTypeList)\<close>, built when
  the package is initialised.
\<close>

definition DefaultPropertyTypeLS :: "(string \<Rightarrow> Quantity option) \<Rightarrow> fault + PropertyTypeLS" where
  "DefaultPropertyTypeLS MustParse = newPropertyTypeLS MustParse DefaultPropertyTypeList"

section \<open>Normalised resource values\<close>

text \<open>
  \<^verbatim>\<open>QuantityDetail\<close> embeds a pointer to a quantity, which may be nil. A Go map from names
  to pointers gives nil for a name it does not hold, so the map \<^verbatim>\<open>res\<close> is a partial
  function whose \<open>None\<close> is the nil pointer.
\<close>

record QuantityDetail =
  Quantity :: "Quantity option"
  Detail :: string

text \<open>
  \<^verbatim>\<open>cpuUnit = resource.MustParse("1m")\<close> is one thousandth, and
  \<^verbatim>\<open>bin1Mi = resource.NewQuantity(1<<20, resource.BinarySI)\<close> is \<open>2 ^ 20\<close> units, that is
  \<open>2 ^ 20 * 1000\<close> thousandths.
\<close>

definition cpuUnit :: Quantity where
  "cpuUnit =
     \<lparr>i_value = 1, i_scale = - 3, d_Dec = None, cached_s = ''1m'', Format = ''DecimalSI'',
      milli = 1\<rparr>"

definition bin1Mi :: Quantity where
  "bin1Mi =
     \<lparr>i_value = 1048576, i_scale = 0, d_Dec = None, cached_s = '''', Format = ''BinarySI'',
      milli = 1048576000\<rparr>"

text \<open>
  The table \<^verbatim>\<open>PricesUnit\<close>. Its keys are \<^verbatim>\<open>corev1.ResourceCPU\<close>, \<^verbatim>\<open>ResourceGPU\<close>,
  \<^verbatim>\<open>corev1.ResourceMemory\<close>, \<^verbatim>\<open>corev1.ResourceStorage\<close> and \<^verbatim>\<open>ResourceNetwork\<close>. The
  constant \<^verbatim>\<open>ResourceGPU = gpu.NvidiaGpuKey\<close> is declared in another package and is a
  parameter here.
\<close>

definition PricesUnit :: "string \<Rightarrow> (string \<rightharpoonup> Quantity)" where
  "PricesUnit NvidiaGpuKey =
     [''cpu'' \<mapsto> cpuUnit, NvidiaGpuKey \<mapsto> cpuUnit, ''memory'' \<mapsto> bin1Mi,
      ''storage'' \<mapsto> bin1Mi, ''network'' \<mapsto> bin1Mi]"

subsection \<open>The float64 arithmetic of Go\<close>

text \<open>
  A finite \<^verbatim>\<open>float64\<close> is a rational number; an operation gives the exact result rounded
  to the nearest number with a significand of 53 bits, ties to the even significand
  (IEEE 754 binary64). The model covers the normal range, magnitudes from \<open>2 ^ - 1022\<close> to
  below \<open>2 ^ 1024\<close>; \<^verbatim>\<open>GetResourceValue\<close> divides integers of magnitude at most
  \<open>2 ^ 63\<close> by the units of the table and stays inside it.
\<close>

text \<open>Rounding a rational to the nearest integer, ties to the even one.\<close>

definition round_half_even :: "rat \<Rightarrow> int" where
  "round_half_even y =
     (let f = \<lfloor>y\<rfloor>; r = y - of_int f
      in if r < 1 / 2 then f else if 1 / 2 < r then f + 1 else if even f then f else f + 1)"

text \<open>The exponent \<open>e\<close> of a non-zero rational: \<open>2 ^ e \<le> \<bar>x\<bar> < 2 ^ (e + 1)\<close>.\<close>

definition binade :: "rat \<Rightarrow> int" where
  "binade x =
     (case quotient_of \<bar>x\<bar> of
        (p, q) \<Rightarrow>
          let e = bitlen p - bitlen q
          in if 2 powi e \<le> \<bar>x\<bar> then e else e - 1)"

definition float64_round :: "rat \<Rightarrow> rat" where
  "float64_round x =
     (if x = 0 then 0
      else let ulp = 2 powi (binade x - 52)
           in of_int (round_half_even (x / ulp)) * ulp)"

text \<open>The conversion \<^verbatim>\<open>float64(i)\<close> of an \<^verbatim>\<open>int64\<close>, and the division of two floats.\<close>

definition float64_of_int64 :: "64 word \<Rightarrow> rat" where
  "float64_of_int64 i = float64_round (of_int (sint i))"

definition float64_div :: "rat \<Rightarrow> rat \<Rightarrow> rat" where
  "float64_div a b = float64_round (a / b)"

text \<open>\<^verbatim>\<open>math.Ceil\<close>; the least integer not below a float is a float.\<close>

definition Ceil :: "rat \<Rightarrow> rat" where
  "Ceil x = of_int \<lceil>x\<rceil>"

text \<open>
  The conversion \<^verbatim>\<open>int64(f)\<close> drops the fraction (towards zero). When the result is
  outside the range of \<^verbatim>\<open>int64\<close>, Go leaves it to the implementation.
\<close>

definition int64_of_float64 :: "rat \<Rightarrow> fault + 64 word" where
  "int64_of_float64 f =
     (let t = (if 0 \<le> f then \<lfloor>f\<rfloor> else \<lceil>f\<rceil>)
      in if - (2 ^ 63) \<le> t \<and> t < 2 ^ 63 then Inr (word_of_int t)
         else Inl ConversionOutOfRange)"

definition GetResourceValue ::
  "string \<Rightarrow> string \<Rightarrow> (string \<rightharpoonup> QuantityDetail) \<Rightarrow> fault + 64 word" where
  "GetResourceValue NvidiaGpuKey resourceName res =
     (case res resourceName of
        None \<Rightarrow> Inr 0
      | Some quantity \<Rightarrow>
          (case Quantity quantity of
             None \<Rightarrow> Inl NilPointerDereference
           | Some q \<Rightarrow>
               if MilliValue q \<noteq> 0
               then (case PricesUnit NvidiaGpuKey resourceName of
                       None \<Rightarrow> Inl NilPointerDereference
                     | Some unit \<Rightarrow>
                         int64_of_float64
                           (Ceil (float64_div (float64_of_int64 (MilliValue q))
                                    (float64_of_int64 (MilliValue unit)))))
               else Inr 0))"

section \<open>Auxiliary definitions\<close>

text \<open>Storing every element of a list under its key, later elements over earlier ones.\<close>

primrec store_all :: "('a \<Rightarrow> 'k) \<Rightarrow> ('k \<rightharpoonup> 'a) \<Rightarrow> 'a list \<Rightarrow> ('k \<rightharpoonup> 'a)" where
  "store_all key m [] = m"
| "store_all key m (t # ts) = store_all key (m(key t \<mapsto> t)) ts"

text \<open>The registry after the loop has visited the entries \<open>ts\<close>, started from \<open>ls\<close>.\<close>

definition registry_of :: "PropertyTypeLS \<Rightarrow> PropertyType list \<Rightarrow> PropertyTypeLS" where
  "registry_of ls ts =
     \<lparr>Types = Types ls @ ts, StringMap = store_all Name (StringMap ls) ts,
      EnumMap = store_all Enum (EnumMap ls) ts\<rparr>"

text \<open>Two entries with one enum, and the registry built from them.\<close>

definition shared_enum_types :: "PropertyType list" where
  "shared_enum_types =
     [zeroPropertyType\<lparr>Name := ''cpu'', Enum := 0\<rparr>, zeroPropertyType\<lparr>Name := ''memory'', Enum := 0\<rparr>]"

definition shared_enum_registry :: PropertyTypeLS where
  "shared_enum_registry =
     \<lparr>Types = shared_enum_types,
      StringMap = [''cpu'' \<mapsto> zeroPropertyType\<lparr>Name := ''cpu'', Enum := 0\<rparr>,
                   ''memory'' \<mapsto> zeroPropertyType\<lparr>Name := ''memory'', Enum := 0\<rparr>],
      EnumMap = [0 \<mapsto> zeroPropertyType\<lparr>Name := ''memory'', Enum := 0\<rparr>]\<rparr>"





text \<open>
  The value \<^verbatim>\<open>GetResourceValue\<close> computes for a quantity of \<open>v\<close> thousandths and a unit
  of \<open>d\<close> thousandths, before the conversion to \<^verbatim>\<open>int64\<close>.
\<close>

definition normalized :: "int \<Rightarrow> int \<Rightarrow> int" where
  "normalized d v =
     (if v = 0 then 0 else \<lceil>float64_round (float64_round (of_int v) / of_int d)\<rceil>)"

text \<open>A quantity detail holding a quantity of \<open>v\<close> thousandths.\<close>

definition milli_detail :: "64 word \<Rightarrow> QuantityDetail" where
  "milli_detail v = \<lparr>Quantity = Some (NewMilliQuantity v ''DecimalSI''), Detail = ''''\<rparr>"






text \<open>
  An entry whose unit is \<^verbatim>\<open>*resource.NewMilliQuantity(0, "")\<close>: its milli-value is 0 and
  its format is empty, and it is not the zero struct, its scale being \<open>- 3\<close>.
\<close>

definition scaled_zero_types :: "PropertyType list" where
  "scaled_zero_types =
     [zeroPropertyType\<lparr>Name := ''cpu'', Unit := NewMilliQuantity 0 '''', UnitString := ''1m''\<rparr>]"

section \<open>Properties of the GPU naming helpers\<close>

lemma HasPrefix_iff_prefix: "HasPrefix s p \<longleftrightarrow> prefix p s"
proof
  assume "HasPrefix s p"
  then have "s = p @ drop (length p) s"
    by (metis HasPrefix_def append_take_drop_id)
  then show "prefix p s"
    by (rule prefixI)
next
  assume "prefix p s"
  then show "HasPrefix s p"
    by (auto simp: HasPrefix_def prefix_def)
qed

text \<open>
  C9. For every product string \<open>p\<close>, \<open>NewGpuResource p\<close> is \<open>''gpu-''\<close> followed by \<open>p\<close>,
  \<open>IsGpuResource\<close> accepts it and \<open>GetGpuResourceProduct\<close> gives \<open>p\<close> back; for every
  string that does not start with \<open>''gpu-''\<close>, \<open>IsGpuResource\<close> is false and
  \<open>GetGpuResourceProduct\<close> returns the string unchanged.
\<close>

theorem gpu_resource_roundtrip:
  "NewGpuResource p = ''gpu-'' @ p
   \<and> IsGpuResource (NewGpuResource p)
   \<and> GetGpuResourceProduct (NewGpuResource p) = p
   \<and> (\<not> prefix ''gpu-'' s \<longrightarrow> \<not> IsGpuResource s \<and> GetGpuResourceProduct s = s)"
  by (simp add: NewGpuResource_def IsGpuResource_def GetGpuResourceProduct_def
      TrimPrefix_def HasPrefix_iff_prefix GpuResourcePrefix_def)

theorem gpu_resource_roundtrip_witness:
  "NewGpuResource ''tesla-v100'' = ''gpu-tesla-v100''
   \<and> IsGpuResource ''gpu-tesla-v100''
   \<and> GetGpuResourceProduct ''gpu-tesla-v100'' = ''tesla-v100''
   \<and> \<not> prefix ''gpu-'' ''cpu''
   \<and> \<not> IsGpuResource ''cpu'' \<and> GetGpuResourceProduct ''cpu'' = ''cpu''"
  using gpu_resource_roundtrip [of "''tesla-v100''" "''cpu''"]
  by (simp add: NewGpuResource_def GpuResourcePrefix_def)

section \<open>Building the registry\<close>

lemma store_all_snoc:
  "store_all key m (ts @ [t]) = (store_all key m ts)(key t \<mapsto> t)"
  by (induction ts arbitrary: m) simp_all


lemma store_all_member:
  "t \<in> set ts \<Longrightarrow> \<exists>t'. store_all key m ts (key t) = Some t' \<and> t' \<in> set ts \<and> key t' = key t"
proof (induction ts rule: rev_induct)
  case Nil
  then show ?case by simp
next
  case (snoc x xs)
  then show ?case
    by (cases "key x = key t") (auto simp: store_all_snoc)
qed

lemma store_all_distinct:
  "distinct (map key ts) \<Longrightarrow> t \<in> set ts \<Longrightarrow> store_all key m ts (key t) = Some t"
proof (induction ts rule: rev_induct)
  case Nil
  then show ?case by simp
next
  case (snoc x xs)
  show ?case
  proof (cases "t = x")
    case True
    then show ?thesis by (simp add: store_all_snoc)
  next
    case False
    with snoc.prems have "t \<in> set xs" "key x \<noteq> key t" "distinct (map key xs)"
      by auto
    with snoc.IH show ?thesis by (simp add: store_all_snoc)
  qed
qed

lemma parseUnit_Inr_fields:
  assumes "parseUnit P t = Inr t'"
  shows "Name t' = Name t" "Enum t' = Enum t" "UnitPrice t' = UnitPrice t"
    "EncryptUnitPrice t' = EncryptUnitPrice t" "UnitString t' = UnitString t"
  using assms by (auto simp: parseUnit_def split: if_splits option.splits)

lemma parseUnit_again:
  assumes "parseUnit P t = Inr t'"
  shows "parseUnit P t' = Inr t'"
  using assms by (auto simp: parseUnit_def split: if_splits option.splits)

lemma registry_of_Nil: "registry_of ls [] = ls"
  by (simp add: registry_of_def)

lemma registry_of_Cons:
  "registry_of ls (t # ts) =
     registry_of (ls\<lparr>Types := Types ls @ [t], EnumMap := (EnumMap ls)(Enum t \<mapsto> t),
                      StringMap := (StringMap ls)(Name t \<mapsto> t)\<rparr>) ts"
  by (simp add: registry_of_def)

lemma loop_Inr_iff:
  "newPropertyTypeLS_loop P ts ls = Inr ls' \<longleftrightarrow>
     (\<exists>ts'. map (parseUnit P) ts = map Inr ts' \<and> ls' = registry_of ls ts')"
proof (induction ts arbitrary: ls)
  case Nil
  show ?case by (auto simp: registry_of_Nil)
next
  case (Cons t ts)
  show ?case
  proof (cases "parseUnit P t")
    case (Inl p)
    then show ?thesis by (auto simp: map_eq_Cons_conv)
  next
    case (Inr t')
    let ?ls = "ls\<lparr>Types := Types ls @ [t'], EnumMap := (EnumMap ls)(Enum t' \<mapsto> t'),
                      StringMap := (StringMap ls)(Name t' \<mapsto> t')\<rparr>"
    have "newPropertyTypeLS_loop P (t # ts) ls = newPropertyTypeLS_loop P ts ?ls"
      using Inr by simp
    also have "\<dots> = Inr ls' \<longleftrightarrow>
        (\<exists>ts'. map (parseUnit P) ts = map Inr ts' \<and> ls' = registry_of ?ls ts')"
      by (rule Cons.IH)
    also have "\<dots> \<longleftrightarrow>
        (\<exists>ts'. map (parseUnit P) (t # ts) = map Inr ts' \<and> ls' = registry_of ls ts')"
    proof
      assume "\<exists>ts'. map (parseUnit P) ts = map Inr ts' \<and> ls' = registry_of ?ls ts'"
      then obtain ts' where "map (parseUnit P) ts = map Inr ts'" "ls' = registry_of ?ls ts'"
        by blast
      then have "map (parseUnit P) (t # ts) = map Inr (t' # ts') \<and> ls' = registry_of ls (t' # ts')"
        using Inr by (simp only: registry_of_Cons list.map)
      then show "\<exists>ts'. map (parseUnit P) (t # ts) = map Inr ts' \<and> ls' = registry_of ls ts'"
        by blast
    next
      assume "\<exists>ts'. map (parseUnit P) (t # ts) = map Inr ts' \<and> ls' = registry_of ls ts'"
      then obtain us where us: "map (parseUnit P) (t # ts) = map Inr us" "ls' = registry_of ls us"
        by blast
      then obtain ts' where "us = t' # ts'" "map (parseUnit P) ts = map Inr ts'"
        using Inr by (cases us) auto
      with us show "\<exists>ts'. map (parseUnit P) ts = map Inr ts' \<and> ls' = registry_of ?ls ts'"
        by (auto simp only: registry_of_Cons)
    qed
    finally show ?thesis .
  qed
qed

lemma newPropertyTypeLS_Inr_iff:
  "newPropertyTypeLS P ts = Inr ls \<longleftrightarrow>
     (\<exists>ts'. map (parseUnit P) ts = map Inr ts' \<and>
        ls = \<lparr>Types = ts', StringMap = store_all Name Map.empty ts',
              EnumMap = store_all Enum Map.empty ts'\<rparr>)"
  by (simp add: newPropertyTypeLS_def loop_Inr_iff registry_of_def)

lemma parseUnit_total:
  "(Unit t = zeroQuantity \<and> UnitString t \<noteq> '''' \<longrightarrow> P (UnitString t) \<noteq> None) \<Longrightarrow> \<exists>t'. parseUnit P t = Inr t'"
  by (auto simp: parseUnit_def)

lemma parseUnit_all_total:
  "\<forall>t\<in>set ts. Unit t = zeroQuantity \<and> UnitString t \<noteq> '''' \<longrightarrow> P (UnitString t) \<noteq> None \<Longrightarrow>
   \<exists>ts'. map (parseUnit P) ts = map Inr ts'"
proof (induction ts)
  case Nil
  show ?case by simp
next
  case (Cons t ts)
  then obtain ts' where "map (parseUnit P) ts = map Inr ts'" by auto
  moreover obtain t' where "parseUnit P t = Inr t'"
    using Cons.prems parseUnit_total [of t P] by auto
  ultimately have "map (parseUnit P) (t # ts) = map Inr (t' # ts')" by simp
  then show ?case by blast
qed

lemma newPropertyTypeLS_total:
  assumes "\<forall>t\<in>set ts. Unit t = zeroQuantity \<and> UnitString t \<noteq> '''' \<longrightarrow> P (UnitString t) \<noteq> None"
  shows "\<exists>ls. newPropertyTypeLS P ts = Inr ls"
  using parseUnit_all_total [OF assms] unfolding newPropertyTypeLS_Inr_iff by blast

lemma parsed_again:
  "map (parseUnit P) ts = map Inr ts' \<Longrightarrow> map (parseUnit P) ts' = map Inr ts'"
proof (induction ts' arbitrary: ts)
  case Nil
  show ?case by simp
next
  case (Cons t' ts')
  from Cons.prems obtain t us where ts: "ts = t # us" and t: "parseUnit P t = Inr t'"
    and us: "map (parseUnit P) us = map Inr ts'"
    by (cases ts) simp_all
  have "parseUnit P t' = Inr t'"
    by (rule parseUnit_again [OF t])
  moreover have "map (parseUnit P) ts' = map Inr ts'"
    by (rule Cons.IH [OF us])
  ultimately show ?case by simp
qed

lemma newPropertyTypeLS_again:
  assumes "newPropertyTypeLS P ts = Inr ls"
  shows "newPropertyTypeLS P (Types ls) = Inr ls"
proof -
  from assms obtain ts' where ts': "map (parseUnit P) ts = map Inr ts'"
    and ls: "ls = \<lparr>Types = ts', StringMap = store_all Name Map.empty ts',
              EnumMap = store_all Enum Map.empty ts'\<rparr>"
    unfolding newPropertyTypeLS_Inr_iff by blast
  have "map (parseUnit P) ts' = map Inr ts'"
    by (rule parsed_again [OF ts'])
  then have "\<exists>us. map (parseUnit P) (Types ls) = map Inr us \<and>
        ls = \<lparr>Types = us, StringMap = store_all Name Map.empty us,
              EnumMap = store_all Enum Map.empty us\<rparr>"
    using ls by simp
  then show ?thesis
    unfolding newPropertyTypeLS_Inr_iff .
qed

lemma newPropertyTypeLS_Types:
  assumes "newPropertyTypeLS P ts = Inr ls"
  shows "map (parseUnit P) ts = map Inr (Types ls)"
proof -
  from assms obtain ts' where ts': "map (parseUnit P) ts = map Inr ts'"
    and ls: "ls = \<lparr>Types = ts', StringMap = store_all Name Map.empty ts',
              EnumMap = store_all Enum Map.empty ts'\<rparr>"
    unfolding newPropertyTypeLS_Inr_iff by blast
  from ls have "Types ls = ts'" by simp
  with ts' show ?thesis by simp
qed

text \<open>
  C8. Building a registry parses the unit string of exactly the entries whose unit is the
  zero quantity and whose unit string is not empty, and leaves every other entry as it
  was; building again from the \<open>Types\<close> of the registry gives the same registry, so the
  same \<open>Types\<close>. The registry is built whenever every string that has to be parsed is
  one that \<^verbatim>\<open>resource.MustParse\<close> accepts. The zero quantity is the zero value of the
  struct \<^verbatim>\<open>resource.Quantity\<close>, and the comparison reads every field of the struct: a
  unit whose milli-value is 0 and whose format is empty, and which is not the zero
  struct, is left as it was.
\<close>

theorem newPropertyTypeLS_idempotent:
  assumes "\<forall>t\<in>set types. Unit t = zeroQuantity \<and> UnitString t \<noteq> '''' \<longrightarrow> MustParse (UnitString t) \<noteq> None"
  shows "\<exists>ls. newPropertyTypeLS MustParse types = Inr ls
    \<and> length (Types ls) = length types
    \<and> (\<forall>i<length types.
         (Unit (types ! i) \<noteq> zeroQuantity \<or> UnitString (types ! i) = '''' \<longrightarrow> Types ls ! i = types ! i)
       \<and> (Unit (types ! i) = zeroQuantity \<and> UnitString (types ! i) \<noteq> '''' \<longrightarrow>
            (\<exists>q. MustParse (UnitString (types ! i)) = Some q \<and> Types ls ! i = (types ! i)\<lparr>Unit := q\<rparr>)))
    \<and> newPropertyTypeLS MustParse (Types ls) = Inr ls"
proof -
  obtain ls where ls: "newPropertyTypeLS MustParse types = Inr ls"
    using newPropertyTypeLS_total [of types MustParse] assms by blast
  have m: "map (parseUnit MustParse) types = map Inr (Types ls)"
    by (rule newPropertyTypeLS_Types [OF ls])
  then have len: "length (Types ls) = length types"
    by (metis length_map)
  have each: "parseUnit MustParse (types ! i) = Inr (Types ls ! i)" if "i < length types" for i
    using that m len by (metis nth_map)
  have "(Unit (types ! i) \<noteq> zeroQuantity \<or> UnitString (types ! i) = '''' \<longrightarrow> Types ls ! i = types ! i)
       \<and> (Unit (types ! i) = zeroQuantity \<and> UnitString (types ! i) \<noteq> '''' \<longrightarrow>
            (\<exists>q. MustParse (UnitString (types ! i)) = Some q \<and> Types ls ! i = (types ! i)\<lparr>Unit := q\<rparr>))"
    if "i < length types" for i
    using each [OF that] by (auto simp: parseUnit_def split: if_splits option.splits)
  with ls len newPropertyTypeLS_again [OF ls] show ?thesis by blast
qed

theorem newPropertyTypeLS_idempotent_witness:
  "list_all (\<lambda>t. Unit t = zeroQuantity \<and> UnitString t \<noteq> '''' \<longrightarrow> MustParse_units (UnitString t) \<noteq> None)
      DefaultPropertyTypeList
   \<and> (\<exists>ls. newPropertyTypeLS MustParse_units DefaultPropertyTypeList = Inr ls
    \<and> length (Types ls) = length DefaultPropertyTypeList
    \<and> map (\<lambda>t. MilliValue (Unit t)) (Types ls) = [1, 1048576000, 1048576000, 1048576000]
    \<and> newPropertyTypeLS MustParse_units (Types ls) = Inr ls)
   \<and> Unit (scaled_zero_types ! 0) \<noteq> zeroQuantity
   \<and> MilliValue (Unit (scaled_zero_types ! 0)) = 0
   \<and> Format (Unit (scaled_zero_types ! 0)) = ''''
   \<and> (\<exists>ls. newPropertyTypeLS MustParse_units scaled_zero_types = Inr ls
         \<and> Types ls = scaled_zero_types)"
proof -
  have h: "\<forall>t\<in>set DefaultPropertyTypeList. Unit t = zeroQuantity \<and> UnitString t \<noteq> '''' \<longrightarrow> MustParse_units (UnitString t) \<noteq> None"
    by (simp add: DefaultPropertyTypeList_def zeroPropertyType_def MustParse_units_def)
  obtain ls where ls: "newPropertyTypeLS MustParse_units DefaultPropertyTypeList = Inr ls"
    and len: "length (Types ls) = length DefaultPropertyTypeList"
    and each: "\<forall>i<length DefaultPropertyTypeList.
         (Unit (DefaultPropertyTypeList ! i) \<noteq> zeroQuantity \<or> UnitString (DefaultPropertyTypeList ! i) = '''' \<longrightarrow>
            Types ls ! i = DefaultPropertyTypeList ! i)
       \<and> (Unit (DefaultPropertyTypeList ! i) = zeroQuantity \<and> UnitString (DefaultPropertyTypeList ! i) \<noteq> '''' \<longrightarrow>
            (\<exists>q. MustParse_units (UnitString (DefaultPropertyTypeList ! i)) = Some q
               \<and> Types ls ! i = (DefaultPropertyTypeList ! i)\<lparr>Unit := q\<rparr>))"
    and again: "newPropertyTypeLS MustParse_units (Types ls) = Inr ls"
    using newPropertyTypeLS_idempotent [OF h] by blast
  have l4: "length (Types ls) = 4"
    using len by (simp add: DefaultPropertyTypeList_def)
  have u: "MilliValue (Unit (Types ls ! i)) = [1, 1048576000, 1048576000, 1048576000] ! i"
    if "i < 4" for i
  proof -
    from that have "i = 0 \<or> i = 1 \<or> i = 2 \<or> i = 3" by auto
    moreover from that have "i < length DefaultPropertyTypeList"
      by (simp add: DefaultPropertyTypeList_def)
    ultimately show ?thesis
      using each [THEN spec, of i]
      by (auto simp: DefaultPropertyTypeList_def zeroPropertyType_def MustParse_units_def
          MilliValue_def zeroQuantity_def)
  qed
  have units: "map (\<lambda>t. MilliValue (Unit t)) (Types ls) = [1, 1048576000, 1048576000, 1048576000]"
    by (rule nth_equalityI) (simp_all add: l4 u)
  have h0: "\<forall>t\<in>set scaled_zero_types. Unit t = zeroQuantity \<and> UnitString t \<noteq> '''' \<longrightarrow> MustParse_units (UnitString t) \<noteq> None"
    by (simp add: scaled_zero_types_def MustParse_units_def)
  have nz: "Unit (scaled_zero_types ! 0) \<noteq> zeroQuantity"
    and mz: "MilliValue (Unit (scaled_zero_types ! 0)) = 0"
    and fz: "Format (Unit (scaled_zero_types ! 0)) = ''''"
    by (simp_all add: scaled_zero_types_def NewMilliQuantity_def zeroQuantity_def MilliValue_def)
  obtain ls' where ls': "newPropertyTypeLS MustParse_units scaled_zero_types = Inr ls'"
    and len': "length (Types ls') = length scaled_zero_types"
    and each': "\<forall>i<length scaled_zero_types.
         (Unit (scaled_zero_types ! i) \<noteq> zeroQuantity \<or> UnitString (scaled_zero_types ! i) = '''' \<longrightarrow>
            Types ls' ! i = scaled_zero_types ! i)
       \<and> (Unit (scaled_zero_types ! i) = zeroQuantity \<and> UnitString (scaled_zero_types ! i) \<noteq> '''' \<longrightarrow>
            (\<exists>q. MustParse_units (UnitString (scaled_zero_types ! i)) = Some q
               \<and> Types ls' ! i = (scaled_zero_types ! i)\<lparr>Unit := q\<rparr>))"
    using newPropertyTypeLS_idempotent [OF h0] by blast
  have "Types ls' ! 0 = scaled_zero_types ! 0"
    using each' [THEN spec, of 0] nz by (simp add: scaled_zero_types_def)
  moreover have "length (Types ls') = 1"
    using len' by (simp add: scaled_zero_types_def)
  ultimately have "Types ls' = scaled_zero_types"
    by (cases "Types ls'") (simp_all add: scaled_zero_types_def)
  with ls' have e2: "\<exists>ls. newPropertyTypeLS MustParse_units scaled_zero_types = Inr ls
         \<and> Types ls = scaled_zero_types"
    by (intro exI [of _ ls'] conjI)
  from ls len units again have e1: "\<exists>ls. newPropertyTypeLS MustParse_units DefaultPropertyTypeList = Inr ls
    \<and> length (Types ls) = length DefaultPropertyTypeList
    \<and> map (\<lambda>t. MilliValue (Unit t)) (Types ls) = [1, 1048576000, 1048576000, 1048576000]
    \<and> newPropertyTypeLS MustParse_units (Types ls) = Inr ls"
    by (intro exI [of _ ls] conjI)
  from h e1 nz mz fz e2 show ?thesis
    unfolding list_all_iff by (intro conjI)
qed

lemma parsed_map:
  assumes f: "\<And>t t'. parseUnit P t = Inr t' \<Longrightarrow> f t' = f t"
    and m: "map (parseUnit P) ts = map Inr ts'"
  shows "map f ts' = map f ts"
proof (rule nth_equalityI)
  from m have len: "length ts' = length ts"
    by (metis length_map)
  then show "length (map f ts') = length (map f ts)"
    by simp
  fix i
  assume "i < length (map f ts')"
  then have i: "i < length ts" "i < length ts'"
    using len by simp_all
  then have "parseUnit P (ts ! i) = Inr (ts' ! i)"
    using m by (metis nth_map)
  then have "f (ts' ! i) = f (ts ! i)"
    by (rule f)
  with i show "map f ts' ! i = map f ts ! i"
    by simp
qed

lemma parsed_fields:
  assumes "map (parseUnit P) ts = map Inr ts'"
  shows "map Name ts' = map Name ts" "map Enum ts' = map Enum ts"
    "map EncryptUnitPrice ts' = map EncryptUnitPrice ts" "map UnitPrice ts' = map UnitPrice ts"
proof -
  show "map Name ts' = map Name ts"
    using parseUnit_Inr_fields(1) assms by (rule parsed_map)
  show "map Enum ts' = map Enum ts"
    using parseUnit_Inr_fields(2) assms by (rule parsed_map)
  show "map EncryptUnitPrice ts' = map EncryptUnitPrice ts"
    using parseUnit_Inr_fields(4) assms by (rule parsed_map)
  show "map UnitPrice ts' = map UnitPrice ts"
    using parseUnit_Inr_fields(3) assms by (rule parsed_map)
qed

text \<open>
  C6, as amended. When the enums of the list are pairwise distinct (and every unit string
  that has to be parsed is accepted, so that a registry is built), every name of the list
  is found in \<open>StringMap\<close>, and the enum of that entry leads in \<open>EnumMap\<close> to an entry with
  the same name.
\<close>

theorem registry_roundtrip_distinct_enum:
  assumes parse: "\<forall>t\<in>set types. Unit t = zeroQuantity \<and> UnitString t \<noteq> '''' \<longrightarrow> MustParse (UnitString t) \<noteq> None"
    and dist: "distinct (map Enum types)"
    and name: "name \<in> Name ` set types"
  shows "\<exists>ls e e'. newPropertyTypeLS MustParse types = Inr ls
     \<and> StringMap ls name = Some e \<and> EnumMap ls (Enum e) = Some e' \<and> Name e' = name"
proof -
  obtain ls where ls: "newPropertyTypeLS MustParse types = Inr ls"
    using newPropertyTypeLS_total [OF parse] by blast
  then obtain ts' where ts': "map (parseUnit MustParse) types = map Inr ts'"
    and reg: "ls = \<lparr>Types = ts', StringMap = store_all Name Map.empty ts',
              EnumMap = store_all Enum Map.empty ts'\<rparr>"
    unfolding newPropertyTypeLS_Inr_iff by blast
  have "name \<in> set (map Name ts')"
    using name parsed_fields(1) [OF ts'] by simp
  then obtain t where t: "t \<in> set ts'" "Name t = name"
    by auto
  obtain e where e: "store_all Name Map.empty ts' (Name t) = Some e" "e \<in> set ts'" "Name e = Name t"
    using store_all_member [OF t(1), of Name Map.empty] by blast
  have "distinct (map Enum ts')"
    using dist parsed_fields(2) [OF ts'] by simp
  then have "store_all Enum Map.empty ts' (Enum e) = Some e"
    using e(2) by (rule store_all_distinct)
  with e t reg ls show ?thesis by simp
qed

theorem registry_roundtrip_distinct_enum_witness:
  "list_all (\<lambda>t. Unit t = zeroQuantity \<and> UnitString t \<noteq> '''' \<longrightarrow> MustParse_units (UnitString t) \<noteq> None)
      DefaultPropertyTypeList
   \<and> distinct (map Enum DefaultPropertyTypeList)
   \<and> ''memory'' \<in> Name ` set DefaultPropertyTypeList
   \<and> (\<exists>ls e e'. newPropertyTypeLS MustParse_units DefaultPropertyTypeList = Inr ls
     \<and> StringMap ls ''memory'' = Some e \<and> EnumMap ls (Enum e) = Some e' \<and> Name e' = ''memory'')"
proof -
  have h: "\<forall>t\<in>set DefaultPropertyTypeList. Unit t = zeroQuantity \<and> UnitString t \<noteq> '''' \<longrightarrow> MustParse_units (UnitString t) \<noteq> None"
    by (simp add: DefaultPropertyTypeList_def zeroPropertyType_def MustParse_units_def)
  have d: "distinct (map Enum DefaultPropertyTypeList)"
    by (simp add: DefaultPropertyTypeList_def zeroPropertyType_def)
  have n: "''memory'' \<in> Name ` set DefaultPropertyTypeList"
    by (simp add: DefaultPropertyTypeList_def zeroPropertyType_def)
  from registry_roundtrip_distinct_enum [OF h d n] h d n show ?thesis
    unfolding list_all_iff by blast
qed

text \<open>
  Without distinct enums the round trip fails: of two entries with enum 0, \<open>EnumMap\<close> keeps
  the second, so the name \<open>''cpu''\<close> comes back as \<open>''memory''\<close>.
\<close>

theorem registry_roundtrip_counterexample:
  "newPropertyTypeLS MustParse_units shared_enum_types = Inr shared_enum_registry
   \<and> ''cpu'' \<in> Name ` set shared_enum_types
   \<and> Name (the (EnumMap shared_enum_registry (Enum (the (StringMap shared_enum_registry ''cpu''))))) = ''memory''"
  by (simp add: newPropertyTypeLS_def shared_enum_types_def shared_enum_registry_def
      parseUnit_def zeroPropertyType_def)

section \<open>Decrypting the prices\<close>





lemma decryptPrice_length: "length (fst (decryptPrice D ts)) = length ts"
  by (induction ts) (auto split: sum.splits prod.splits)










section \<open>Translating usage maps\<close>

lemma Convert_loop_snoc:
  "ConvertEnumUsedToString_loop ls (costs @ [(k, v)]) m =
     (ConvertEnumUsedToString_loop ls costs m)(EnumName ls k \<mapsto> v)"
  by (induction costs arbitrary: m) auto

lemma Convert_loop_dom:
  "dom (ConvertEnumUsedToString_loop ls costs m) = dom m \<union> EnumName ls ` fst ` set costs"
proof (induction costs rule: rev_induct)
  case Nil
  show ?case by simp
next
  case (snoc x xs)
  obtain k v where x: "x = (k, v)" by (cases x)
  have "dom (ConvertEnumUsedToString_loop ls (xs @ [x]) m) =
      insert (EnumName ls k) (dom (ConvertEnumUsedToString_loop ls xs m))"
    by (simp add: x Convert_loop_snoc)
  also have "\<dots> = dom m \<union> EnumName ls ` fst ` set (xs @ [x])"
    unfolding snoc.IH by (simp add: x)
  finally show ?case .
qed

lemma Convert_loop_Some:
  "ConvertEnumUsedToString_loop ls costs m n = Some v \<Longrightarrow>
   m n = Some v \<or> (\<exists>k. (k, v) \<in> set costs \<and> EnumName ls k = n)"
  by (induction costs arbitrary: m) (fastforce split: if_splits)+

lemma Convert_loop_unique:
  assumes "distinct (map fst costs)" and "(k, v) \<in> set costs"
    and "\<forall>k'\<in>fst ` set costs. EnumName ls k' = EnumName ls k \<longrightarrow> k' = k"
  shows "ConvertEnumUsedToString_loop ls costs m (EnumName ls k) = Some v"
  using assms
proof (induction costs rule: rev_induct)
  case Nil
  then show ?case by simp
next
  case (snoc x xs)
  obtain k' v' where x: "x = (k', v')" by (cases x)
  show ?case
  proof (cases "k' = k")
    case True
    with snoc.prems x have "v' = v"
      by (auto simp: image_iff)
    with True x show ?thesis by (simp add: Convert_loop_snoc)
  next
    case False
    with snoc.prems x have "EnumName ls k' \<noteq> EnumName ls k" "(k, v) \<in> set xs"
      "distinct (map fst xs)" "\<forall>k'\<in>fst ` set xs. EnumName ls k' = EnumName ls k \<longrightarrow> k' = k"
      by auto
    with snoc.IH x show ?thesis by (simp add: Convert_loop_snoc)
  qed
qed

lemma DefaultPropertyTypeLS_EnumMap:
  assumes "DefaultPropertyTypeLS P = Inr ls"
  shows "\<exists>a b c d. EnumMap ls = [0 \<mapsto> a, 1 \<mapsto> b, 2 \<mapsto> c, 3 \<mapsto> d]
    \<and> Name a = ''cpu'' \<and> Name b = ''memory'' \<and> Name c = ''storage'' \<and> Name d = ''network''"
proof -
  from assms obtain ts' where ts': "map (parseUnit P) DefaultPropertyTypeList = map Inr ts'"
    and reg: "ls = \<lparr>Types = ts', StringMap = store_all Name Map.empty ts',
              EnumMap = store_all Enum Map.empty ts'\<rparr>"
    unfolding DefaultPropertyTypeLS_def newPropertyTypeLS_Inr_iff by blast
  have n: "map Name ts' = [''cpu'', ''memory'', ''storage'', ''network'']"
    unfolding parsed_fields(1) [OF ts'] by (simp add: DefaultPropertyTypeList_def zeroPropertyType_def)
  have e: "map Enum ts' = [0, 1, 2, 3]"
    unfolding parsed_fields(2) [OF ts'] by (simp add: DefaultPropertyTypeList_def zeroPropertyType_def)
  from n obtain a b c d where abcd: "ts' = [a, b, c, d]"
    by (auto simp: map_eq_Cons_conv)
  with n e reg show ?thesis by auto
qed

lemma DefaultPropertyTypeLS_EnumName:
  assumes "DefaultPropertyTypeLS P = Inr ls"
  shows "EnumName ls k =
     (if k = 0 then ''cpu'' else if k = 1 then ''memory'' else if k = 2 then ''storage''
      else if k = 3 then ''network'' else '''')"
    and "EnumMap ls k = None \<longleftrightarrow> k \<notin> {0, 1, 2, 3}"
  using DefaultPropertyTypeLS_EnumMap [OF assms] by (auto simp: EnumName_def)

text \<open>
  C4, as amended. \<open>ls\<close> is the registry \<^verbatim>\<open>DefaultPropertyTypeLS\<close>, whose ids are 0 to 3, and
  \<open>costs\<close> the entries of a Go map (keys pairwise distinct) in any order of iteration.
  The translation is a lookup that always returns a map: every id of the registry gives an
  entry under its registered name with its amount, and ids the registry does not know are
  not left out: the result has an entry under the empty name, holding the amount of one
  of them. The names of the result are exactly the names looked up.
\<close>

theorem ConvertEnumUsedToString_unknown_ids:
  assumes ls: "DefaultPropertyTypeLS MustParse = Inr ls" and dist: "distinct (map fst costs)"
  shows "(\<forall>k v p. (k, v) \<in> set costs \<and> EnumMap ls k = Some p \<longrightarrow>
            ConvertEnumUsedToString ls costs (Name p) = Some v)
    \<and> (\<forall>k v. (k, v) \<in> set costs \<and> EnumMap ls k = None \<longrightarrow>
          (\<exists>k' v'. (k', v') \<in> set costs \<and> EnumMap ls k' = None
             \<and> ConvertEnumUsedToString ls costs '''' = Some v'))
    \<and> dom (ConvertEnumUsedToString ls costs) =
          (\<lambda>k. case EnumMap ls k of None \<Rightarrow> '''' | Some p \<Rightarrow> Name p) ` fst ` set costs
    \<and> dom (EnumMap ls) = {0, 1, 2, 3}"
proof (intro conjI allI impI)
  note nm = DefaultPropertyTypeLS_EnumName [OF ls]
  show d: "dom (ConvertEnumUsedToString ls costs) =
          (\<lambda>k. case EnumMap ls k of None \<Rightarrow> '''' | Some p \<Rightarrow> Name p) ` fst ` set costs"
    using Convert_loop_dom [of ls costs Map.empty]
    by (simp add: ConvertEnumUsedToString_def EnumName_def [abs_def])
  show "dom (EnumMap ls) = {0, 1, 2, 3}"
    using nm(2) by (auto simp: dom_def)
  {
    fix k v p
    assume kv: "(k, v) \<in> set costs \<and> EnumMap ls k = Some p"
    then have known: "k \<in> {0, 1, 2, 3}"
      using nm(2) [of k] by auto
    have "\<forall>k'\<in>fst ` set costs. EnumName ls k' = EnumName ls k \<longrightarrow> k' = k"
      using known by (auto simp: nm(1))
    with dist kv have "ConvertEnumUsedToString_loop ls costs Map.empty (EnumName ls k) = Some v"
      by (intro Convert_loop_unique) auto
    moreover have "EnumName ls k = Name p"
      using kv by (simp add: EnumName_def)
    ultimately show "ConvertEnumUsedToString ls costs (Name p) = Some v"
      by (simp add: ConvertEnumUsedToString_def)
  }
  {
    fix k v
    assume kv: "(k, v) \<in> set costs \<and> EnumMap ls k = None"
    then have "EnumName ls k = ''''"
      by (simp add: EnumName_def)
    with kv have "'''' \<in> EnumName ls ` fst ` set costs"
      by force
    then have "'''' \<in> dom (ConvertEnumUsedToString_loop ls costs Map.empty)"
      by (simp add: Convert_loop_dom)
    then obtain v' where v': "ConvertEnumUsedToString_loop ls costs Map.empty '''' = Some v'"
      by auto
    then obtain k' where k': "(k', v') \<in> set costs" "EnumName ls k' = ''''"
      using Convert_loop_Some [OF v'] by auto
    then have "EnumMap ls k' = None"
      using nm(2) [of k'] by (auto simp: nm(1) split: if_splits)
    with k' v' show "\<exists>k' v'. (k', v') \<in> set costs \<and> EnumMap ls k' = None
             \<and> ConvertEnumUsedToString ls costs '''' = Some v'"
      by (auto simp: ConvertEnumUsedToString_def)
  }
qed

text \<open>
  The id 7 is not in the default registry, and the usage map \<open>{7: 5}\<close> is translated to a
  map with the entry \<open>'''' \<mapsto> 5\<close>: the unknown id is not omitted.
\<close>

theorem ConvertEnumUsedToString_counterexample:
  "\<not> isl (DefaultPropertyTypeLS MustParse_units)
   \<and> EnumMap (projr (DefaultPropertyTypeLS MustParse_units)) 7 = None
   \<and> ConvertEnumUsedToString (projr (DefaultPropertyTypeLS MustParse_units)) [(7, 5)] '''' = Some 5"
  by (simp add: DefaultPropertyTypeLS_def newPropertyTypeLS_def DefaultPropertyTypeList_def
      parseUnit_def zeroPropertyType_def MustParse_units_def zeroQuantity_def
      ConvertEnumUsedToString_def EnumName_def)

theorem ConvertEnumUsedToString_unknown_ids_witness:
  "\<exists>ls. DefaultPropertyTypeLS MustParse_units = Inr ls
     \<and> distinct (map fst [(0 :: 8 word, 10 :: 64 word), (7, 5)])
     \<and> (\<exists>p. EnumMap ls 0 = Some p
            \<and> ConvertEnumUsedToString ls [(0, 10), (7, 5)] (Name p) = Some 10)
     \<and> EnumMap ls 7 = None
     \<and> (\<exists>v'. ConvertEnumUsedToString ls [(0, 10), (7, 5)] '''' = Some v')"
proof -
  have "\<forall>t\<in>set DefaultPropertyTypeList.
      Unit t = zeroQuantity \<and> UnitString t \<noteq> '''' \<longrightarrow> MustParse_units (UnitString t) \<noteq> None"
    by (simp add: DefaultPropertyTypeList_def zeroPropertyType_def MustParse_units_def)
  then have "\<exists>ls. newPropertyTypeLS MustParse_units DefaultPropertyTypeList = Inr ls"
    by (rule newPropertyTypeLS_total)
  then obtain ls where ls: "DefaultPropertyTypeLS MustParse_units = Inr ls"
    unfolding DefaultPropertyTypeLS_def by (rule exE)
  have dist: "distinct (map fst [(0 :: 8 word, 10 :: 64 word), (7, 5)])"
    by simp
  note inst = ConvertEnumUsedToString_unknown_ids [OF ls dist]
  have d: "dom (EnumMap ls) = {0, 1, 2, 3}"
    by (rule inst [THEN conjunct2, THEN conjunct2, THEN conjunct2])
  then have "0 \<in> dom (EnumMap ls)" and "7 \<notin> dom (EnumMap ls)"
    by simp_all
  then obtain p where p: "EnumMap ls 0 = Some p" and none: "EnumMap ls 7 = None"
    by auto
  have known: "ConvertEnumUsedToString ls [(0, 10), (7, 5)] (Name p) = Some 10"
    using inst [THEN conjunct1, THEN spec, THEN spec, THEN spec, of 0 10 p] p by simp
  have "\<exists>k' v'. (k', v') \<in> set [(0 :: 8 word, 10 :: 64 word), (7, 5)] \<and> EnumMap ls k' = None
      \<and> ConvertEnumUsedToString ls [(0, 10), (7, 5)] '''' = Some v'"
    using inst [THEN conjunct2, THEN conjunct1, THEN spec, THEN spec, of 7 5] none by simp
  then have unknown: "\<exists>v'. ConvertEnumUsedToString ls [(0, 10), (7, 5)] '''' = Some v'"
    by auto
  from p known have "\<exists>p. EnumMap ls 0 = Some p
            \<and> ConvertEnumUsedToString ls [(0, 10), (7, 5)] (Name p) = Some 10"
    by (intro exI [of _ p] conjI)
  with ls dist none unknown show ?thesis
    by (intro exI [of _ ls] conjI)
qed

section \<open>Rounding in float64\<close>

lemma rhe_of_int: "round_half_even (of_int n) = n"
  by (simp add: round_half_even_def)

lemma rhe_cases:
  "round_half_even y = \<lfloor>y\<rfloor> \<or> round_half_even y = \<lfloor>y\<rfloor> + 1"
  by (simp add: round_half_even_def Let_def)

lemma rhe_error: "\<bar>of_int (round_half_even y) - y\<bar> \<le> 1 / 2"
proof -
  have "of_int \<lfloor>y\<rfloor> \<le> y" "y < of_int \<lfloor>y\<rfloor> + 1"
    by linarith+
  then show ?thesis
    by (auto simp: round_half_even_def Let_def)
qed

lemma rhe_mono:
  assumes "x \<le> y"
  shows "round_half_even x \<le> round_half_even y"
proof (cases "\<lfloor>x\<rfloor> = \<lfloor>y\<rfloor>")
  case True
  with assms show ?thesis
    by (auto simp: round_half_even_def Let_def)
next
  case False
  with assms have "\<lfloor>x\<rfloor> + 1 \<le> \<lfloor>y\<rfloor>"
    using floor_mono [OF assms] by linarith
  moreover have "round_half_even x \<le> \<lfloor>x\<rfloor> + 1" "\<lfloor>y\<rfloor> \<le> round_half_even y"
    using rhe_cases [of x] rhe_cases [of y] by auto
  ultimately show ?thesis by linarith
qed

lemma rhe_minus: "round_half_even (- y) = - round_half_even y"
proof (cases "y = of_int \<lfloor>y\<rfloor>")
  case True
  then obtain n where "y = of_int n" ..
  then have "- y = of_int (- n)" by simp
  then show ?thesis
    using \<open>y = of_int n\<close> by (simp only: rhe_of_int)
next
  case False
  then have strict: "of_int \<lfloor>y\<rfloor> < y" "y < of_int \<lfloor>y\<rfloor> + 1"
    by linarith+
  have fl: "\<lfloor>- y\<rfloor> = - \<lfloor>y\<rfloor> - 1"
    by (rule floor_unique) (use strict in simp_all)
  from strict have "y - of_int \<lfloor>y\<rfloor> < 1 / 2 \<longleftrightarrow> 1 / 2 < - y - of_int (- \<lfloor>y\<rfloor> - 1)"
    and "1 / 2 < y - of_int \<lfloor>y\<rfloor> \<longleftrightarrow> - y - of_int (- \<lfloor>y\<rfloor> - 1) < 1 / 2"
    by auto
  then show ?thesis
    unfolding round_half_even_def Let_def fl by auto
qed

lemma bitlen_powi_bounds:
  assumes "0 < p"
  shows "(2 :: rat) powi (bitlen p - 1) \<le> of_int p" "of_int p < (2 :: rat) powi (bitlen p)"
proof -
  from assms have b1: "1 \<le> bitlen p"
    using bitlen_eq_zero_iff [of p] bitlen_nonneg [of p] by linarith
  have lo: "2 ^ nat (bitlen p - 1) \<le> p" and hi: "p < 2 ^ nat (bitlen p)"
    using bitlen_bounds [OF assms] by simp_all
  have "(2 :: rat) powi (bitlen p - 1) = of_int (2 ^ nat (bitlen p - 1))"
    using b1 by (simp add: power_int_def)
  also have "\<dots> \<le> of_int p"
    using lo by (simp only: of_int_le_iff)
  finally show "(2 :: rat) powi (bitlen p - 1) \<le> of_int p" .
  have "of_int p < (of_int (2 ^ nat (bitlen p)) :: rat)"
    using hi by (simp only: of_int_less_iff)
  also have "\<dots> = 2 powi (bitlen p)"
    using b1 by (simp add: power_int_def)
  finally show "of_int p < (2 :: rat) powi (bitlen p)" .
qed

lemma powi2_less_iff: "(2 :: rat) powi m < 2 powi n \<longleftrightarrow> m < n"
proof
  assume "m < n"
  then show "(2 :: rat) powi m < 2 powi n"
    by (intro power_int_strict_increasing) simp_all
next
  assume l: "(2 :: rat) powi m < 2 powi n"
  show "m < n"
  proof (rule ccontr)
    assume "\<not> m < n"
    then have "n \<le> m" by simp
    then have "(2 :: rat) powi n \<le> 2 powi m"
      by (intro power_int_increasing) simp_all
    with l show False by simp
  qed
qed

lemma powi2_le_iff: "(2 :: rat) powi m \<le> 2 powi n \<longleftrightarrow> m \<le> n"
  using powi2_less_iff [of n m] by (auto simp: not_less [symmetric])

lemma powi2_pos: "0 < (2 :: rat) powi n"
  by simp

lemma binade_bounds:
  assumes "x \<noteq> 0"
  shows "2 powi (binade x) \<le> \<bar>x\<bar>" "\<bar>x\<bar> < 2 powi (binade x + 1)"
proof -
  obtain p q where pq: "quotient_of \<bar>x\<bar> = (p, q)"
    by (cases "quotient_of \<bar>x\<bar>")
  then have q: "0 < q" and x: "\<bar>x\<bar> = of_int p / of_int q"
    by (rule quotient_of_denom_pos, rule quotient_of_div)
  from assms have "0 < \<bar>x\<bar>" by simp
  with x q have p: "0 < p"
    by (simp add: zero_less_divide_iff)
  define e where "e = bitlen p - bitlen q"
  note bp = bitlen_powi_bounds [OF p] and bq = bitlen_powi_bounds [OF q]
  have qpos: "(0 :: rat) < of_int q" using q by simp
  have up: "\<bar>x\<bar> < 2 powi (e + 1)"
  proof -
    have "of_int p < (2 :: rat) powi (e + 1) * 2 powi (bitlen q - 1)"
      using bp(2) by (simp add: e_def flip: power_int_add)
    also have "\<dots> \<le> 2 powi (e + 1) * of_int q"
      using bq(1) by (intro mult_left_mono) simp_all
    finally show ?thesis
      using qpos by (simp add: x pos_divide_less_eq)
  qed
  have low: "2 powi (e - 1) < \<bar>x\<bar>"
  proof -
    have "(2 :: rat) powi (e - 1) * of_int q < 2 powi (e - 1) * 2 powi (bitlen q)"
      using bq(2) by (intro mult_strict_left_mono) simp_all
    also have "\<dots> = 2 powi (bitlen p - 1)"
      by (simp add: e_def flip: power_int_add)
    also have "\<dots> \<le> of_int p"
      by (rule bp(1))
    finally show ?thesis
      using qpos by (simp add: x pos_less_divide_eq)
  qed
  have b: "binade x = (if 2 powi e \<le> \<bar>x\<bar> then e else e - 1)"
    by (simp add: binade_def pq e_def Let_def)
  show "2 powi (binade x) \<le> \<bar>x\<bar>"
    using low by (simp add: b)
  show "\<bar>x\<bar> < 2 powi (binade x + 1)"
    using up by (simp add: b not_le)
qed

lemma binade_unique:
  assumes "2 powi e \<le> \<bar>x\<bar>" "\<bar>x\<bar> < 2 powi (e + 1)"
  shows "binade x = e"
proof -
  have "0 < \<bar>x\<bar>"
    using powi2_pos [of e] assms(1) by (rule less_le_trans)
  then have "x \<noteq> 0"
    by simp
  note b = binade_bounds [OF this]
  have "(2 :: rat) powi e < 2 powi (binade x + 1)"
    using assms(1) b(2) by (rule le_less_trans)
  moreover have "(2 :: rat) powi (binade x) < 2 powi (e + 1)"
    using b(1) assms(2) by (rule le_less_trans)
  ultimately show ?thesis
    unfolding powi2_less_iff by linarith
qed

lemma binade_minus: "binade (- x) = binade x"
  by (simp add: binade_def)

lemma binade_mono:
  assumes "0 < x" "x \<le> y"
  shows "binade x \<le> binade y"
proof -
  have "(2 :: rat) powi (binade x) \<le> \<bar>x\<bar>"
    using assms by (intro binade_bounds) simp
  also have "\<dots> \<le> \<bar>y\<bar>" using assms by simp
  also have "\<dots> < 2 powi (binade y + 1)"
    using assms by (intro binade_bounds) simp
  finally show ?thesis
    unfolding powi2_less_iff by linarith
qed

lemma powi2_52: "(2 :: rat) ^ 52 * 2 powi (e - 52) = 2 powi e"
  by (simp add: power_int_diff)

lemma powi2_53: "(2 :: rat) ^ 53 * 2 powi (e - 52) = 2 powi (e + 1)"
  by (simp add: power_int_diff power_int_add)

lemma powi2_half: "1 / 2 * (2 :: rat) powi (e - 52) = 2 powi (e - 53)"
  by (simp add: power_int_diff)

lemma float64_round_minus: "float64_round (- x) = - float64_round x"
  by (simp add: float64_round_def binade_minus rhe_minus Let_def)

lemma float64_round_nonzero:
  "x \<noteq> 0 \<Longrightarrow>
   float64_round x = of_int (round_half_even (x / 2 powi (binade x - 52))) * 2 powi (binade x - 52)"
  by (simp add: float64_round_def Let_def)

lemma significand_range:
  assumes "0 < x"
  shows "2 ^ 52 \<le> x / 2 powi (binade x - 52)" "x / 2 powi (binade x - 52) < 2 ^ 53"
proof -
  from assms have nz: "x \<noteq> 0" and ab: "\<bar>x\<bar> = x" by simp_all
  note b = binade_bounds [OF nz, unfolded ab]
  have u: "0 < (2 :: rat) powi (binade x - 52)" by simp
  have "2 ^ 52 * 2 powi (binade x - 52) \<le> x"
    unfolding powi2_52 by (rule b(1))
  then show "2 ^ 52 \<le> x / 2 powi (binade x - 52)"
    using u by (simp only: pos_le_divide_eq)
  have "x < 2 ^ 53 * 2 powi (binade x - 52)"
    unfolding powi2_53 by (rule b(2))
  then show "x / 2 powi (binade x - 52) < 2 ^ 53"
    using u by (simp only: pos_divide_less_eq)
qed

lemma significand_rounded:
  assumes "0 < x"
  shows "2 ^ 52 \<le> round_half_even (x / 2 powi (binade x - 52))"
    "round_half_even (x / 2 powi (binade x - 52)) \<le> 2 ^ 53"
proof -
  note r = significand_range [OF assms]
  have "round_half_even (of_int (2 ^ 52)) \<le> round_half_even (x / 2 powi (binade x - 52))"
    using r(1) by (intro rhe_mono) simp
  then show "2 ^ 52 \<le> round_half_even (x / 2 powi (binade x - 52))"
    by (simp only: rhe_of_int)
  have "round_half_even (x / 2 powi (binade x - 52)) \<le> round_half_even (of_int (2 ^ 53))"
    using r(2) by (intro rhe_mono) simp
  then show "round_half_even (x / 2 powi (binade x - 52)) \<le> 2 ^ 53"
    by (simp only: rhe_of_int)
qed

lemma float64_round_binade:
  assumes "0 < x"
  shows "2 powi (binade x) \<le> float64_round x" "float64_round x \<le> 2 powi (binade x + 1)"
proof -
  let ?u = "(2 :: rat) powi (binade x - 52)"
  let ?n = "round_half_even (x / ?u)"
  from assms have nz: "x \<noteq> 0" by simp
  note s = significand_rounded [OF assms]
  have "(2 :: rat) powi (binade x) = 2 ^ 52 * ?u"
    by (simp only: powi2_52)
  also have "\<dots> \<le> of_int ?n * ?u"
  proof (rule mult_right_mono)
    have "(of_int (2 ^ 52) :: rat) \<le> of_int ?n"
      using s(1) by (simp only: of_int_le_iff)
    then show "(2 :: rat) ^ 52 \<le> of_int ?n" by simp
  qed simp
  finally show "2 powi (binade x) \<le> float64_round x"
    by (simp only: float64_round_nonzero [OF nz])
  have "of_int ?n * ?u \<le> 2 ^ 53 * ?u"
  proof (rule mult_right_mono)
    have "(of_int ?n :: rat) \<le> of_int (2 ^ 53)"
      using s(2) by (simp only: of_int_le_iff)
    then show "(of_int ?n :: rat) \<le> 2 ^ 53" by simp
  qed simp
  also have "\<dots> = 2 powi (binade x + 1)"
    by (simp only: powi2_53)
  finally show "float64_round x \<le> 2 powi (binade x + 1)"
    by (simp only: float64_round_nonzero [OF nz])
qed

lemma float64_round_pos: "0 < x \<Longrightarrow> 0 < float64_round x"
  using float64_round_binade(1) [of x] powi2_pos [of "binade x"] by linarith

lemma float64_round_neg: "x < 0 \<Longrightarrow> float64_round x < 0"
  using float64_round_pos [of "- x"] by (simp add: float64_round_minus)

lemma float64_round_mono_pos:
  assumes "0 < x" "x \<le> y"
  shows "float64_round x \<le> float64_round y"
proof (cases "binade x = binade y")
  case True
  let ?u = "(2 :: rat) powi (binade y - 52)"
  from assms have nz: "x \<noteq> 0" "y \<noteq> 0" by simp_all
  have "x / ?u \<le> y / ?u"
    using assms(2) by (simp add: divide_right_mono)
  then have "round_half_even (x / ?u) \<le> round_half_even (y / ?u)"
    by (rule rhe_mono)
  then have "(of_int (round_half_even (x / ?u)) :: rat) * ?u \<le> of_int (round_half_even (y / ?u)) * ?u"
    by (intro mult_right_mono) simp_all
  then show ?thesis
    by (simp only: float64_round_nonzero [OF nz(1)] float64_round_nonzero [OF nz(2)] True)
next
  case False
  with binade_mono [OF assms] have "binade x + 1 \<le> binade y"
    by linarith
  then have "(2 :: rat) powi (binade x + 1) \<le> 2 powi (binade y)"
    by (simp only: powi2_le_iff)
  moreover have "float64_round x \<le> 2 powi (binade x + 1)"
    using assms(1) by (rule float64_round_binade)
  moreover have "2 powi (binade y) \<le> float64_round y"
    using assms by (intro float64_round_binade) simp
  ultimately show ?thesis by linarith
qed

lemma float64_round_0: "float64_round 0 = 0"
  by (simp add: float64_round_def)

lemma float64_round_mono:
  assumes "x \<le> y"
  shows "float64_round x \<le> float64_round y"
proof -
  consider "0 < x" | "x = 0" "y = 0" | "x = 0" "0 < y" | "x < 0" "0 \<le> y" | "x < 0" "y < 0"
    using assms by linarith
  then show ?thesis
  proof cases
    case 1
    then show ?thesis using assms by (rule float64_round_mono_pos)
  next
    case 2
    then show ?thesis by simp
  next
    case 3
    then show ?thesis
      using float64_round_pos [of y] by (simp add: float64_round_0)
  next
    case 4
    have "float64_round x < 0" using 4(1) by (rule float64_round_neg)
    moreover have "0 \<le> float64_round y"
      using 4(2) float64_round_pos [of y] by (cases "y = 0") (simp_all add: float64_round_0)
    ultimately show ?thesis by simp
  next
    case 5
    then have "float64_round (- y) \<le> float64_round (- x)"
      using assms by (intro float64_round_mono_pos) simp_all
    then show ?thesis by (simp add: float64_round_minus)
  qed
qed

lemma float64_round_error:
  assumes "x \<noteq> 0"
  shows "\<bar>float64_round x - x\<bar> \<le> 2 powi (binade x - 53)"
proof -
  let ?u = "(2 :: rat) powi (binade x - 52)"
  have u: "0 < ?u" by simp
  have "\<bar>of_int (round_half_even (x / ?u)) - x / ?u\<bar> * ?u \<le> 1 / 2 * ?u"
    using rhe_error [of "x / ?u"] by (intro mult_right_mono) simp_all
  moreover have "\<bar>of_int (round_half_even (x / ?u)) - x / ?u\<bar> * ?u =
      \<bar>of_int (round_half_even (x / ?u)) * ?u - x\<bar>"
  proof -
    have "\<bar>of_int (round_half_even (x / ?u)) - x / ?u\<bar> * ?u =
        \<bar>(of_int (round_half_even (x / ?u)) - x / ?u) * ?u\<bar>"
      by (simp add: abs_mult)
    also have "(of_int (round_half_even (x / ?u)) - x / ?u) * ?u =
        of_int (round_half_even (x / ?u)) * ?u - x"
      by (simp add: left_diff_distrib)
    finally show ?thesis .
  qed
  moreover have "1 / 2 * ?u = 2 powi (binade x - 53)"
    by (rule powi2_half)
  ultimately show ?thesis
    by (simp only: float64_round_nonzero [OF assms])
qed

lemma float64_round_exact:
  assumes "\<bar>m\<bar> < 2 ^ 53"
  shows "float64_round (of_int m * 2 powi k) = of_int m * 2 powi k"
proof (cases "m = 0")
  case True
  then show ?thesis by (simp add: float64_round_0)
next
  case False
  let ?x = "of_int m * (2 :: rat) powi k"
  let ?e = "binade ?x"
  have nz: "?x \<noteq> 0" using False by simp
  have "(2 :: rat) powi ?e \<le> \<bar>?x\<bar>"
    using nz by (rule binade_bounds)
  also have "\<bar>?x\<bar> = of_int \<bar>m\<bar> * 2 powi k"
    by (simp add: abs_mult)
  also have "\<dots> < of_int (2 ^ 53) * 2 powi k"
    using assms by (intro mult_strict_right_mono) (simp_all only: of_int_less_iff powi2_pos)
  also have "\<dots> = 2 powi (53 + k)"
    using power_int_add [of "2 :: rat" 53 k] by simp
  finally have "?e < 53 + k"
    by (simp only: powi2_less_iff)
  then have j: "0 \<le> k - (?e - 52)" by linarith
  have "?x / 2 powi (?e - 52) = of_int m * 2 powi (k - (?e - 52))"
    by (simp add: power_int_diff)
  also have "\<dots> = of_int (m * 2 ^ nat (k - (?e - 52)))"
    using j by (simp add: power_int_def)
  finally have "round_half_even (?x / 2 powi (?e - 52)) = m * 2 ^ nat (k - (?e - 52))"
    by (simp only: rhe_of_int)
  then have "float64_round ?x = of_int (m * 2 ^ nat (k - (?e - 52))) * 2 powi (?e - 52)"
    by (simp only: float64_round_nonzero [OF nz])
  also have "\<dots> = of_int m * (2 powi (k - (?e - 52)) * 2 powi (?e - 52))"
    using j by (simp add: power_int_def)
  also have "2 powi (k - (?e - 52)) * 2 powi (?e - 52) = (2 :: rat) powi k"
    using power_int_add [of "2 :: rat" "k - (?e - 52)" "?e - 52"] by simp
  finally show ?thesis .
qed

lemma float64_round_int_exact:
  assumes "\<bar>v\<bar> \<le> 2 ^ 53"
  shows "float64_round (of_int v) = of_int v"
proof (cases "\<bar>v\<bar> = 2 ^ 53")
  case True
  then consider "v = 2 ^ 53" | "v = - (2 ^ 53)" by linarith
  then show ?thesis
  proof cases
    case 1
    then show ?thesis
      using float64_round_exact [of 1 53] by simp
  next
    case 2
    then show ?thesis
      using float64_round_exact [of "- 1" 53] by simp
  qed
next
  case False
  with assms have "\<bar>v\<bar> < 2 ^ 53" by linarith
  then show ?thesis
    using float64_round_exact [of v 0] by simp
qed

lemma PricesUnit_dom:
  "dom (PricesUnit gk) = {''cpu'', gk, ''memory'', ''storage'', ''network''}"
  by (auto simp: PricesUnit_def)

lemma PricesUnit_Some:
  "PricesUnit gk name = Some u \<Longrightarrow> sint (MilliValue u) = 1 \<or> sint (MilliValue u) = 1048576000"
  by (auto simp: PricesUnit_def MilliValue_def cpuUnit_def bin1Mi_def split: if_splits)

lemma sint_int64:
  "- (2 ^ 63) \<le> k \<Longrightarrow> k < 2 ^ 63 \<Longrightarrow> sint (word_of_int k :: 64 word) = k"
  by (simp add: sint_sbintrunc' signed_take_bit_int_eq_self)

lemma int64_of_float64_int:
  "int64_of_float64 (of_int k) =
     (if - (2 ^ 63) \<le> k \<and> k < 2 ^ 63 then Inr (word_of_int k) else Inl ConversionOutOfRange)"
  by (simp add: int64_of_float64_def Let_def)

lemma float64_of_unit:
  assumes "PricesUnit gk name = Some u"
  shows "float64_of_int64 (MilliValue u) = of_int (sint (MilliValue u))"
  unfolding float64_of_int64_def
  using PricesUnit_Some [OF assms] by (intro float64_round_int_exact) auto

lemma GetResourceValue_present:
  assumes "res name = Some qd" "Quantity qd = Some q" "PricesUnit gk name = Some u"
  shows "GetResourceValue gk name res =
     int64_of_float64 (of_int (normalized (sint (MilliValue u)) (sint (MilliValue q))))"
proof (cases "MilliValue q = 0")
  case True
  then show ?thesis
    using assms int64_of_float64_int [of 0]
    by (simp add: GetResourceValue_def normalized_def)
next
  case False
  then have nz: "sint (MilliValue q) \<noteq> 0"
    by (simp add: signed_eq_0_iff)
  have u: "float64_of_int64 (MilliValue u) = of_int (sint (MilliValue u))"
    using assms(3) by (rule float64_of_unit)
  have q: "float64_of_int64 (MilliValue q) = float64_round (of_int (sint (MilliValue q)))"
    by (simp only: float64_of_int64_def)
  from nz assms False show ?thesis
    by (simp add: GetResourceValue_def normalized_def Ceil_def float64_div_def u q)
qed

lemma GetResourceValue_absent: "res name = None \<Longrightarrow> GetResourceValue gk name res = Inr 0"
  by (simp add: GetResourceValue_def)

lemma GetResourceValue_zero:
  "res name = Some qd \<Longrightarrow> Quantity qd = Some q \<Longrightarrow> MilliValue q = 0 \<Longrightarrow>
   GetResourceValue gk name res = Inr 0"
  by (simp add: GetResourceValue_def)

lemma GetResourceValue_no_unit:
  "res name = Some qd \<Longrightarrow> Quantity qd = Some q \<Longrightarrow> MilliValue q \<noteq> 0 \<Longrightarrow>
   PricesUnit gk name = None \<Longrightarrow> GetResourceValue gk name res = Inl NilPointerDereference"
  by (simp add: GetResourceValue_def)

lemma float64_round_int63:
  "float64_round (of_int (- (2 ^ 63))) = of_int (- (2 ^ 63))"
  "float64_round (of_int (2 ^ 63 - 1024)) = of_int (2 ^ 63 - 1024)"
proof -
  show "float64_round (of_int (- (2 ^ 63))) = of_int (- (2 ^ 63))"
    using float64_round_exact [of "- 1" 63] by simp
  have "\<bar>2 ^ 53 - 1 :: int\<bar> < 2 ^ 53" by simp
  then have "float64_round (of_int (2 ^ 53 - 1) * 2 powi 10) = of_int (2 ^ 53 - 1) * 2 powi 10"
    by (rule float64_round_exact)
  then show "float64_round (of_int (2 ^ 63 - 1024)) = of_int (2 ^ 63 - 1024)"
    by simp
qed

lemma float64_round_below_2_63: "float64_round (of_int (2 ^ 63 - 513)) = of_int (2 ^ 63 - 1024)"
  by code_simp

lemma divide_unit_bounds:
  fixes a :: rat
  assumes "lo \<le> a" "a \<le> hi" "lo \<le> 0" "0 \<le> hi" "1 \<le> d"
  shows "lo \<le> a / d" "a / d \<le> hi"
proof -
  have d: "0 < d" using assms(5) by simp
  show "lo \<le> a / d"
  proof (cases "0 \<le> a")
    case True
    then have "0 \<le> a / d" using d by simp
    with assms(3) show ?thesis by simp
  next
    case False
    then have "a * d \<le> a * 1"
      using assms(5) by (intro mult_left_mono_neg) simp_all
    then have "a \<le> a / d"
      using d by (simp add: pos_le_divide_eq)
    with assms(1) show ?thesis by simp
  qed
  show "a / d \<le> hi"
  proof (cases "0 \<le> a")
    case True
    then have "a * 1 \<le> a * d"
      using assms(5) by (intro mult_left_mono) simp_all
    then have "a / d \<le> a"
      using d by (simp add: pos_divide_le_eq)
    with assms(2) show ?thesis by simp
  next
    case False
    then have "a / d \<le> 0" using d by (simp add: divide_le_0_iff)
    with assms(4) show ?thesis by simp
  qed
qed

lemma normalized_range:
  assumes d: "1 \<le> d" and lo: "- (2 ^ 63) \<le> v" and hi: "v < 2 ^ 63 - 512"
  shows "- (2 ^ 63) \<le> normalized d v" "normalized d v < 2 ^ 63"
proof -
  let ?a = "float64_round (of_int v)"
  let ?c = "float64_round (?a / of_int d)"
  have "float64_round (of_int (- (2 ^ 63))) \<le> ?a"
    using lo by (intro float64_round_mono) (simp only: of_int_le_iff)
  then have a_lo: "of_int (- (2 ^ 63)) \<le> ?a"
    by (simp only: float64_round_int63)
  have "v \<le> 2 ^ 63 - 513" using hi by simp
  then have "?a \<le> float64_round (of_int (2 ^ 63 - 513))"
    by (intro float64_round_mono) (simp only: of_int_le_iff)
  then have a_hi: "?a \<le> of_int (2 ^ 63 - 1024)"
    by (simp only: float64_round_below_2_63)
  have d1: "(1 :: rat) \<le> of_int d" using d by simp
  have x_lo: "of_int (- (2 ^ 63)) \<le> ?a / of_int d" and x_hi: "?a / of_int d \<le> of_int (2 ^ 63 - 1024)"
    using divide_unit_bounds [OF a_lo a_hi _ _ d1] by simp_all
  have "float64_round (of_int (- (2 ^ 63))) \<le> ?c"
    using x_lo by (rule float64_round_mono)
  then have c_lo: "of_int (- (2 ^ 63)) \<le> ?c"
    by (simp only: float64_round_int63)
  have "?c \<le> float64_round (of_int (2 ^ 63 - 1024))"
    using x_hi by (rule float64_round_mono)
  then have c_hi: "?c \<le> of_int (2 ^ 63 - 1024)"
    by (simp only: float64_round_int63)
  have "- (2 ^ 63) \<le> \<lceil>?c\<rceil>"
    using ceiling_mono [OF c_lo] by (simp only: ceiling_of_int)
  moreover have "\<lceil>?c\<rceil> \<le> 2 ^ 63 - 1024"
    using ceiling_mono [OF c_hi] by (simp only: ceiling_of_int)
  ultimately show "- (2 ^ 63) \<le> normalized d v" "normalized d v < 2 ^ 63"
    by (simp_all add: normalized_def)
qed

lemma float64_round_2_63: "float64_round (of_int (2 ^ 63)) = of_int (2 ^ 63)"
  using float64_round_exact [of 1 63] by simp

lemma float64_round_2_62:
  "float64_round (of_int (- (2 ^ 62))) = of_int (- (2 ^ 62))"
  "float64_round (of_int (2 ^ 62)) = of_int (2 ^ 62)"
  using float64_round_exact [of "- 1" 62] float64_round_exact [of 1 62] by simp_all

lemma normalized_range_wide:
  assumes d: "2 \<le> d" and lo: "- (2 ^ 63) \<le> v" and hi: "v < 2 ^ 63"
  shows "- (2 ^ 63) \<le> normalized d v" "normalized d v < 2 ^ 63"
proof -
  let ?a = "float64_round (of_int v)"
  let ?c = "float64_round (?a / of_int d)"
  have "float64_round (of_int (- (2 ^ 63))) \<le> ?a"
    using lo by (intro float64_round_mono) (simp only: of_int_le_iff)
  then have a_lo: "of_int (- (2 ^ 63)) \<le> ?a"
    by (simp only: float64_round_int63)
  have "v \<le> 2 ^ 63" using hi by simp
  then have "?a \<le> float64_round (of_int (2 ^ 63))"
    by (intro float64_round_mono) (simp only: of_int_le_iff)
  then have a_hi: "?a \<le> of_int (2 ^ 63)"
    by (simp only: float64_round_2_63)
  have half: "(1 :: rat) \<le> of_int d / 2"
  proof -
    have "(of_int 2 :: rat) \<le> of_int d" using d by (simp only: of_int_le_iff)
    then show ?thesis by simp
  qed
  have h_lo: "of_int (- (2 ^ 62)) \<le> ?a / 2" and h_hi: "?a / 2 \<le> of_int (2 ^ 62)"
    using a_lo a_hi by simp_all
  have eq: "?a / of_int d = (?a / 2) / (of_int d / 2)"
    by simp
  have x_lo: "of_int (- (2 ^ 62)) \<le> ?a / of_int d" and x_hi: "?a / of_int d \<le> of_int (2 ^ 62)"
    unfolding eq using divide_unit_bounds [OF h_lo h_hi _ _ half] by simp_all
  have "float64_round (of_int (- (2 ^ 62))) \<le> ?c"
    using x_lo by (rule float64_round_mono)
  then have c_lo: "of_int (- (2 ^ 62)) \<le> ?c"
    by (simp only: float64_round_2_62)
  have "?c \<le> float64_round (of_int (2 ^ 62))"
    using x_hi by (rule float64_round_mono)
  then have c_hi: "?c \<le> of_int (2 ^ 62)"
    by (simp only: float64_round_2_62)
  have "- (2 ^ 62) \<le> \<lceil>?c\<rceil>"
    using ceiling_mono [OF c_lo] by (simp only: ceiling_of_int)
  moreover have "\<lceil>?c\<rceil> \<le> 2 ^ 62"
    using ceiling_mono [OF c_hi] by (simp only: ceiling_of_int)
  ultimately show "- (2 ^ 63) \<le> normalized d v" "normalized d v < 2 ^ 63"
    by (simp_all add: normalized_def)
qed

lemma normalized_int64:
  assumes "1 \<le> d" "- (2 ^ 63) \<le> v" "v < 2 ^ 63" "d = 1 \<longrightarrow> v < 2 ^ 63 - 512"
  shows "- (2 ^ 63) \<le> normalized d v" "normalized d v < 2 ^ 63"
proof -
  show "- (2 ^ 63) \<le> normalized d v"
    using assms normalized_range(1) [of d v] normalized_range_wide(1) [of d v]
    by (cases "d = 1") simp_all
  show "normalized d v < 2 ^ 63"
    using assms normalized_range(2) [of d v] normalized_range_wide(2) [of d v]
    by (cases "d = 1") simp_all
qed

lemma normalized_mono:
  assumes d: "0 < d" and le: "v1 \<le> v2"
  shows "normalized d v1 \<le> normalized d v2"
proof -
  have step: "\<lceil>float64_round (float64_round (of_int a) / of_int d)\<rceil>
      \<le> \<lceil>float64_round (float64_round (of_int b) / of_int d)\<rceil>" if "a \<le> b" for a b :: int
  proof -
    have "float64_round (of_int a) \<le> float64_round (of_int b)"
      using that by (intro float64_round_mono) (simp only: of_int_le_iff)
    then have "float64_round (of_int a) / of_int d \<le> float64_round (of_int b) / of_int d"
      using d by (intro divide_right_mono) simp_all
    then show ?thesis
      by (intro ceiling_mono float64_round_mono)
  qed
  have z: "float64_round (float64_round (of_int 0) / of_int d) = 0"
    by (simp add: float64_round_0)
  consider "v1 = 0" "v2 = 0" | "v1 = 0" "v2 \<noteq> 0" | "v1 \<noteq> 0" "v2 = 0" | "v1 \<noteq> 0" "v2 \<noteq> 0"
    by blast
  then show ?thesis
  proof cases
    case 1
    then show ?thesis by simp
  next
    case 2
    with le have "(0 :: int) \<le> v2" by simp
    from step [OF this] have "0 \<le> \<lceil>float64_round (float64_round (of_int v2) / of_int d)\<rceil>"
      by (simp only: z ceiling_zero)
    with 2 show ?thesis by (simp add: normalized_def)
  next
    case 3
    with le have "v1 \<le> (0 :: int)" by simp
    from step [OF this] have "\<lceil>float64_round (float64_round (of_int v1) / of_int d)\<rceil> \<le> 0"
      by (simp only: z ceiling_zero)
    with 3 show ?thesis by (simp add: normalized_def)
  next
    case 4
    with step [OF le] show ?thesis by (simp add: normalized_def)
  qed
qed

lemma normalized_unit_1:
  assumes "\<bar>v\<bar> \<le> 2 ^ 53"
  shows "normalized 1 v = v"
  using assms by (simp add: normalized_def float64_round_int_exact)

lemma float64_round_close:
  assumes nz: "x \<noteq> 0" and small: "\<bar>x\<bar> < 2 ^ 24"
  shows "x - 1 / 2 ^ 30 \<le> float64_round x"
proof -
  have "(2 :: rat) powi (binade x) \<le> \<bar>x\<bar>"
    using nz by (rule binade_bounds)
  also have "\<bar>x\<bar> < 2 powi 24"
    using small by simp
  finally have "binade x < 24"
    by (rule powi2_less_iff [THEN iffD1])
  then have "binade x - 53 \<le> - 30" by simp
  then have "(2 :: rat) powi (binade x - 53) \<le> 2 powi (- 30)"
    by (rule powi2_le_iff [THEN iffD2])
  also have "\<dots> = 1 / 2 ^ 30"
    by simp
  finally have "\<bar>float64_round x - x\<bar> \<le> 1 / 2 ^ 30"
    using float64_round_error [OF nz] by linarith
  then show ?thesis by linarith
qed

lemma normalized_unit_Mi:
  assumes v: "\<bar>v\<bar> \<le> 2 ^ 53"
  shows "normalized 1048576000 v = \<lceil>(of_int v :: rat) / 1048576000\<rceil>"
proof (cases "v = 0")
  case True
  then show ?thesis by (simp add: normalized_def)
next
  case False
  let ?D = "1048576000 :: rat"
  let ?x = "(of_int v :: rat) / ?D"
  let ?k = "\<lceil>?x\<rceil>"
  have a: "float64_round (of_int v) = of_int v"
    using v by (rule float64_round_int_exact)
  have nz: "?x \<noteq> 0" using False by simp
  have av: "\<bar>of_int v :: rat\<bar> \<le> 2 ^ 53"
  proof -
    have "(of_int \<bar>v\<bar> :: rat) \<le> of_int (2 ^ 53)"
      using v by (simp only: of_int_le_iff)
    then show ?thesis by simp
  qed
  have x_lo: "- (2 ^ 53) \<le> ?x" and x_hi: "?x \<le> 2 ^ 53"
    using divide_unit_bounds [of "- (2 ^ 53)" "of_int v" "2 ^ 53" ?D] av by simp_all
  have small: "\<bar>?x\<bar> < 2 ^ 24"
  proof -
    have "\<bar>?x\<bar> = \<bar>of_int v\<bar> / ?D" by simp
    also have "\<dots> \<le> 2 ^ 53 / ?D"
      using av by (intro divide_right_mono) simp_all
    also have "\<dots> < 2 ^ 24" by simp
    finally show ?thesis .
  qed
  have k_bound: "\<bar>?k\<bar> \<le> 2 ^ 53"
  proof -
    have "(of_int (- (2 ^ 53)) :: rat) \<le> ?x" using x_lo by simp
    then have "\<lceil>of_int (- (2 ^ 53)) :: rat\<rceil> \<le> ?k" by (rule ceiling_mono)
    then have "- (2 ^ 53) \<le> ?k" by (simp only: ceiling_of_int)
    moreover have "?x \<le> (of_int (2 ^ 53) :: rat)" using x_hi by simp
    then have "?k \<le> \<lceil>of_int (2 ^ 53) :: rat\<rceil>" by (rule ceiling_mono)
    then have "?k \<le> 2 ^ 53" by (simp only: ceiling_of_int)
    ultimately show ?thesis by linarith
  qed
  have upper: "float64_round ?x \<le> of_int ?k"
  proof -
    have "float64_round ?x \<le> float64_round (of_int ?k)"
      by (intro float64_round_mono) linarith
    then show ?thesis
      by (simp only: float64_round_int_exact [OF k_bound])
  qed
  have lower: "of_int ?k - 1 < float64_round ?x"
  proof -
    have "of_int ?k - 1 < ?x" by linarith
    then have "(of_int ?k - 1) * ?D < of_int v"
      by (simp add: pos_less_divide_eq)
    then have "(of_int ((?k - 1) * 1048576000) :: rat) < of_int v"
      by simp
    then have "(?k - 1) * 1048576000 < v"
      by (simp only: of_int_less_iff)
    then have "(?k - 1) * 1048576000 + 1 \<le> v" by simp
    then have "(of_int ((?k - 1) * 1048576000 + 1) :: rat) \<le> of_int v"
      by (simp only: of_int_le_iff)
    then have "(of_int ?k - 1) * ?D + 1 \<le> of_int v"
      by simp
    then have "(of_int ?k - 1) + 1 / ?D \<le> ?x"
      by (simp add: pos_le_divide_eq distrib_right)
    moreover have "?x - 1 / 2 ^ 30 \<le> float64_round ?x"
      using nz small by (rule float64_round_close)
    moreover have "(1 :: rat) / 2 ^ 30 < 1 / ?D" by simp
    ultimately show ?thesis by linarith
  qed
  have "\<lceil>float64_round ?x\<rceil> = ?k"
    using lower upper by (rule ceiling_unique)
  with False a show ?thesis
    by (simp add: normalized_def)
qed

lemma normalized_exact:
  assumes "\<bar>v\<bar> \<le> 2 ^ 53" "d = 1 \<or> d = 1048576000"
  shows "normalized d v = \<lceil>(of_int v :: rat) / of_int d\<rceil>"
  using assms normalized_unit_1 [of v] normalized_unit_Mi [of v] by auto

section \<open>Properties of the normalised resource values\<close>

lemma sint_int64_range: "- (2 ^ 63) \<le> sint (w :: 64 word)" "sint (w :: 64 word) < 2 ^ 63"
  using sint_ge [of w] sint_lt [of w] by simp_all

lemma GetResourceValue_in_range:
  assumes "res name = Some qd" "Quantity qd = Some q" "PricesUnit gk name = Some u"
    and "sint (MilliValue u) = 1 \<longrightarrow> sint (MilliValue q) < 2 ^ 63 - 512"
  shows "GetResourceValue gk name res =
      Inr (word_of_int (normalized (sint (MilliValue u)) (sint (MilliValue q))))"
    and "sint (word_of_int (normalized (sint (MilliValue u)) (sint (MilliValue q))) :: 64 word) =
      normalized (sint (MilliValue u)) (sint (MilliValue q))"
proof -
  have d: "1 \<le> sint (MilliValue u)"
    using PricesUnit_Some [OF assms(3)] by auto
  note r = normalized_int64 [OF d sint_int64_range assms(4)]
  show "GetResourceValue gk name res =
      Inr (word_of_int (normalized (sint (MilliValue u)) (sint (MilliValue q))))"
    using r GetResourceValue_present [of res name qd q gk u] assms(1-3)
    by (simp add: int64_of_float64_int)
  show "sint (word_of_int (normalized (sint (MilliValue u)) (sint (MilliValue q))) :: 64 word) =
      normalized (sint (MilliValue u)) (sint (MilliValue q))"
    using r by (rule sint_int64)
qed

text \<open>
  C2, as amended. \<^verbatim>\<open>GetResourceValue\<close> returns 0 when the quantity is absent or its
  milli-value is 0. For a resource kind of the table \<^verbatim>\<open>PricesUnit\<close> and a quantity whose
  milli-value \<open>v\<close> has magnitude at most \<open>2 ^ 53\<close>, it returns the ceiling of \<open>v / d\<close> over
  the rationals, \<open>d\<close> being the milli-value of the unit. The arithmetic is that of
  \<^verbatim>\<open>float64\<close>, which holds every integer up to \<open>2 ^ 53\<close> exactly and whose rounding of
  the quotient is too small to reach the next integer.
\<close>

theorem GetResourceValue_ceiling:
  "(res resourceName = None \<longrightarrow> GetResourceValue NvidiaGpuKey resourceName res = Inr 0)
   \<and> (\<forall>quantity q. res resourceName = Some quantity \<and> Quantity quantity = Some q \<longrightarrow>
         (MilliValue q = 0 \<longrightarrow> GetResourceValue NvidiaGpuKey resourceName res = Inr 0)
       \<and> (\<forall>unit. PricesUnit NvidiaGpuKey resourceName = Some unit
              \<and> \<bar>sint (MilliValue q)\<bar> \<le> 2 ^ 53 \<longrightarrow>
            (\<exists>r. GetResourceValue NvidiaGpuKey resourceName res = Inr r
               \<and> sint r = \<lceil>(of_int (sint (MilliValue q)) :: rat) / of_int (sint (MilliValue unit))\<rceil>)))"
proof (intro conjI allI impI)
  assume "res resourceName = None"
  then show "GetResourceValue NvidiaGpuKey resourceName res = Inr 0"
    by (rule GetResourceValue_absent)
next
  fix quantity q
  assume p: "res resourceName = Some quantity \<and> Quantity quantity = Some q"
  {
    assume "MilliValue q = 0"
    with p show "GetResourceValue NvidiaGpuKey resourceName res = Inr 0"
      using GetResourceValue_zero [of res resourceName quantity q NvidiaGpuKey] by simp
  }
  fix unit
  assume u: "PricesUnit NvidiaGpuKey resourceName = Some unit \<and> \<bar>sint (MilliValue q)\<bar> \<le> 2 ^ 53"
  then have small: "sint (MilliValue unit) = 1 \<longrightarrow> sint (MilliValue q) < 2 ^ 63 - 512"
    by (simp add: abs_le_iff)
  from p u have res: "res resourceName = Some quantity" and q: "Quantity quantity = Some q"
    and unit: "PricesUnit NvidiaGpuKey resourceName = Some unit"
    by simp_all
  note r = GetResourceValue_in_range [of res resourceName quantity q NvidiaGpuKey unit,
      OF res q unit small]
  have "normalized (sint (MilliValue unit)) (sint (MilliValue q)) =
      \<lceil>(of_int (sint (MilliValue q)) :: rat) / of_int (sint (MilliValue unit))\<rceil>"
    using u PricesUnit_Some [OF unit] by (intro normalized_exact) simp_all
  with r show "\<exists>r. GetResourceValue NvidiaGpuKey resourceName res = Inr r
      \<and> sint r = \<lceil>(of_int (sint (MilliValue q)) :: rat) / of_int (sint (MilliValue unit))\<rceil>"
    by (intro exI conjI) simp_all
qed

theorem GetResourceValue_ceiling_witness:
  "(\<exists>r. GetResourceValue ''nvidia.com/gpu'' ''cpu'' [''cpu'' \<mapsto> milli_detail 1500] = Inr r
         \<and> sint r = 1500)
   \<and> (\<exists>r. GetResourceValue ''nvidia.com/gpu'' ''memory'' [''memory'' \<mapsto> milli_detail 10485761000] = Inr r
         \<and> sint r = 11)
   \<and> GetResourceValue ''nvidia.com/gpu'' ''cpu'' Map.empty = Inr 0
   \<and> GetResourceValue ''nvidia.com/gpu'' ''cpu'' [''cpu'' \<mapsto> milli_detail 0] = Inr 0"
proof (intro conjI)
  have c: "\<lceil>(10485761 :: rat) / 1048576\<rceil> = 11"
    by (rule ceiling_unique) simp_all
  show "\<exists>r. GetResourceValue ''nvidia.com/gpu'' ''cpu'' [''cpu'' \<mapsto> milli_detail 1500] = Inr r
         \<and> sint r = 1500"
    using GetResourceValue_ceiling [of "[''cpu'' \<mapsto> milli_detail 1500]" "''cpu''" "''nvidia.com/gpu''"]
    by (simp add: milli_detail_def NewMilliQuantity_def PricesUnit_def cpuUnit_def MilliValue_def)
  show "\<exists>r. GetResourceValue ''nvidia.com/gpu'' ''memory'' [''memory'' \<mapsto> milli_detail 10485761000] = Inr r
         \<and> sint r = 11"
    using GetResourceValue_ceiling [of "[''memory'' \<mapsto> milli_detail 10485761000]" "''memory''" "''nvidia.com/gpu''"]
    by (simp add: milli_detail_def NewMilliQuantity_def PricesUnit_def bin1Mi_def MilliValue_def c)
  show "GetResourceValue ''nvidia.com/gpu'' ''cpu'' Map.empty = Inr 0"
    using GetResourceValue_ceiling [of Map.empty "''cpu''" "''nvidia.com/gpu''"]
    by simp
  show "GetResourceValue ''nvidia.com/gpu'' ''cpu'' [''cpu'' \<mapsto> milli_detail 0] = Inr 0"
    using GetResourceValue_ceiling [of "[''cpu'' \<mapsto> milli_detail 0]" "''cpu''" "''nvidia.com/gpu''"]
    by (simp add: milli_detail_def NewMilliQuantity_def MilliValue_def)
qed

text \<open>
  Beyond \<open>2 ^ 53\<close> the conversion to \<^verbatim>\<open>float64\<close> rounds: for a CPU quantity of
  \<open>2 ^ 53 + 1\<close> thousandths and the unit of one thousandth the result is \<open>2 ^ 53\<close>, while
  the ceiling of the quotient is \<open>2 ^ 53 + 1\<close>.
\<close>

theorem GetResourceValue_ceiling_counterexample:
  "GetResourceValue ''nvidia.com/gpu'' ''cpu'' [''cpu'' \<mapsto> milli_detail 9007199254740993]
     = Inr 9007199254740992
   \<and> PricesUnit ''nvidia.com/gpu'' ''cpu'' = Some cpuUnit
   \<and> \<lceil>(of_int (sint (9007199254740993 :: 64 word)) :: rat) / of_int (sint (MilliValue cpuUnit))\<rceil>
       = 9007199254740993"
  by code_simp

text \<open>
  C7, as amended. For a resource kind of the table and two quantities with milli-values
  \<open>v1 \<le> v2\<close>, \<^verbatim>\<open>GetResourceValue\<close> returns a value for each and the value for the first
  is at most the value for the second, provided that, when the unit is one thousandth
  (CPU and GPU), \<open>v2\<close> is below \<open>2 ^ 63 - 512\<close>; it returns 0 for a quantity of milli-value
  0 and for a missing quantity.
\<close>

theorem GetResourceValue_monotone:
  assumes "PricesUnit NvidiaGpuKey resourceName = Some unit"
    and "Quantity quantity1 = Some q1" and "Quantity quantity2 = Some q2"
    and "sint (MilliValue q1) \<le> sint (MilliValue q2)"
    and "sint (MilliValue unit) = 1 \<longrightarrow> sint (MilliValue q2) < 2 ^ 63 - 512"
  shows "\<exists>r1 r2.
      GetResourceValue NvidiaGpuKey resourceName (res(resourceName \<mapsto> quantity1)) = Inr r1
    \<and> GetResourceValue NvidiaGpuKey resourceName (res(resourceName \<mapsto> quantity2)) = Inr r2
    \<and> sint r1 \<le> sint r2
    \<and> (MilliValue q1 = 0 \<longrightarrow> r1 = 0)
    \<and> GetResourceValue NvidiaGpuKey resourceName (res(resourceName := None)) = Inr 0"
proof -
  let ?d = "sint (MilliValue unit)"
  let ?r1 = "word_of_int (normalized ?d (sint (MilliValue q1))) :: 64 word"
  let ?r2 = "word_of_int (normalized ?d (sint (MilliValue q2))) :: 64 word"
  have small1: "sint (MilliValue unit) = 1 \<longrightarrow> sint (MilliValue q1) < 2 ^ 63 - 512"
    using assms(4,5) by linarith
  have d: "0 < ?d"
    using PricesUnit_Some [OF assms(1)] by auto
  have g1: "GetResourceValue NvidiaGpuKey resourceName (res(resourceName \<mapsto> quantity1)) = Inr ?r1"
    and s1: "sint ?r1 = normalized ?d (sint (MilliValue q1))"
    using GetResourceValue_in_range [of "res(resourceName \<mapsto> quantity1)" resourceName quantity1
        q1 NvidiaGpuKey unit] assms(1,2) small1
    by simp_all
  have g2: "GetResourceValue NvidiaGpuKey resourceName (res(resourceName \<mapsto> quantity2)) = Inr ?r2"
    and s2: "sint ?r2 = normalized ?d (sint (MilliValue q2))"
    using GetResourceValue_in_range [of "res(resourceName \<mapsto> quantity2)" resourceName quantity2
        q2 NvidiaGpuKey unit] assms(1,3,5)
    by simp_all
  have le: "sint ?r1 \<le> sint ?r2"
    unfolding s1 s2 using d assms(4) by (rule normalized_mono)
  have z: "MilliValue q1 = 0 \<longrightarrow> ?r1 = 0"
    by (simp add: normalized_def)
  have none: "GetResourceValue NvidiaGpuKey resourceName (res(resourceName := None)) = Inr 0"
    by (rule GetResourceValue_absent) simp
  from g1 g2 le z none show ?thesis
    by (intro exI [of _ ?r1] exI [of _ ?r2] conjI)
qed

theorem GetResourceValue_monotone_witness:
  "(\<exists>r1 r2.
      GetResourceValue ''nvidia.com/gpu'' ''cpu'' [''cpu'' \<mapsto> milli_detail 1500] = Inr r1
    \<and> GetResourceValue ''nvidia.com/gpu'' ''cpu'' [''cpu'' \<mapsto> milli_detail 2000] = Inr r2
    \<and> sint r1 \<le> sint r2)
   \<and> (\<exists>r1 r2.
      GetResourceValue ''nvidia.com/gpu'' ''memory'' [''memory'' \<mapsto> milli_detail 1048576000] = Inr r1
    \<and> GetResourceValue ''nvidia.com/gpu'' ''memory''
        [''memory'' \<mapsto> milli_detail 9223372036854775807] = Inr r2
    \<and> sint r1 \<le> sint r2)
   \<and> GetResourceValue ''nvidia.com/gpu'' ''memory'' Map.empty = Inr 0"
proof -
  have "\<exists>r1 r2.
      GetResourceValue ''nvidia.com/gpu'' ''cpu'' (Map.empty(''cpu'' \<mapsto> milli_detail 1500)) = Inr r1
    \<and> GetResourceValue ''nvidia.com/gpu'' ''cpu'' (Map.empty(''cpu'' \<mapsto> milli_detail 2000)) = Inr r2
    \<and> sint r1 \<le> sint r2
    \<and> (MilliValue (NewMilliQuantity 1500 ''DecimalSI'') = 0 \<longrightarrow> r1 = 0)
    \<and> GetResourceValue ''nvidia.com/gpu'' ''cpu'' (Map.empty(''cpu'' := None)) = Inr 0"
    by (rule GetResourceValue_monotone [of "''nvidia.com/gpu''" "''cpu''" cpuUnit
          "milli_detail 1500" "NewMilliQuantity 1500 ''DecimalSI''"
          "milli_detail 2000" "NewMilliQuantity 2000 ''DecimalSI''"])
      (simp_all add: milli_detail_def NewMilliQuantity_def PricesUnit_def MilliValue_def cpuUnit_def)
  then have cpu: "\<exists>r1 r2.
      GetResourceValue ''nvidia.com/gpu'' ''cpu'' [''cpu'' \<mapsto> milli_detail 1500] = Inr r1
    \<and> GetResourceValue ''nvidia.com/gpu'' ''cpu'' [''cpu'' \<mapsto> milli_detail 2000] = Inr r2
    \<and> sint r1 \<le> sint r2"
    by auto
  have "\<exists>r1 r2.
      GetResourceValue ''nvidia.com/gpu'' ''memory''
        (Map.empty(''memory'' \<mapsto> milli_detail 1048576000)) = Inr r1
    \<and> GetResourceValue ''nvidia.com/gpu'' ''memory''
        (Map.empty(''memory'' \<mapsto> milli_detail 9223372036854775807)) = Inr r2
    \<and> sint r1 \<le> sint r2
    \<and> (MilliValue (NewMilliQuantity 1048576000 ''DecimalSI'') = 0 \<longrightarrow> r1 = 0)
    \<and> GetResourceValue ''nvidia.com/gpu'' ''memory'' (Map.empty(''memory'' := None)) = Inr 0"
    by (rule GetResourceValue_monotone [of "''nvidia.com/gpu''" "''memory''" bin1Mi
          "milli_detail 1048576000" "NewMilliQuantity 1048576000 ''DecimalSI''"
          "milli_detail 9223372036854775807"
          "NewMilliQuantity 9223372036854775807 ''DecimalSI''"])
      (simp_all add: milli_detail_def NewMilliQuantity_def PricesUnit_def MilliValue_def bin1Mi_def)
  then have mem: "(\<exists>r1 r2.
      GetResourceValue ''nvidia.com/gpu'' ''memory'' [''memory'' \<mapsto> milli_detail 1048576000] = Inr r1
    \<and> GetResourceValue ''nvidia.com/gpu'' ''memory''
        [''memory'' \<mapsto> milli_detail 9223372036854775807] = Inr r2
    \<and> sint r1 \<le> sint r2)
    \<and> GetResourceValue ''nvidia.com/gpu'' ''memory'' Map.empty = Inr 0"
    by auto
  from cpu mem show ?thesis
    by (intro conjI) simp_all
qed

text \<open>
  From \<open>2 ^ 63 - 512\<close> thousandths on, the \<^verbatim>\<open>float64\<close> of a CPU quantity is \<open>2 ^ 63\<close>,
  which \<^verbatim>\<open>int64\<close> does not hold: the conversion has no result that Go defines, so the
  largest quantity has no value to compare with the value 1 of the quantity \<open>1m\<close>.
\<close>

theorem GetResourceValue_monotone_counterexample:
  "GetResourceValue ''nvidia.com/gpu'' ''cpu'' [''cpu'' \<mapsto> milli_detail 1] = Inr 1
   \<and> GetResourceValue ''nvidia.com/gpu'' ''cpu'' [''cpu'' \<mapsto> milli_detail 9223372036854775807]
       = Inl ConversionOutOfRange
   \<and> sint (1 :: 64 word) \<le> sint (9223372036854775807 :: 64 word)"
  by code_simp

text \<open>
  C10. For a quantity that is present with a milli-value other than 0,
  \<^verbatim>\<open>GetResourceValue\<close> dereferences a nil unit exactly when the resource name is not a key
  of \<^verbatim>\<open>PricesUnit\<close>, whose keys are the five names of the table; a name with the GPU
  prefix such as \<^verbatim>\<open>gpu-tesla-v100\<close> is not among them.
\<close>

theorem GetResourceValue_nil_unit:
  assumes "res resourceName = Some quantity" and "Quantity quantity = Some q"
    and "MilliValue q \<noteq> 0"
  shows "(resourceName \<notin> dom (PricesUnit NvidiaGpuKey) \<longrightarrow>
            GetResourceValue NvidiaGpuKey resourceName res = Inl NilPointerDereference)
    \<and> (resourceName \<in> dom (PricesUnit NvidiaGpuKey) \<longrightarrow>
            GetResourceValue NvidiaGpuKey resourceName res \<noteq> Inl NilPointerDereference)
    \<and> dom (PricesUnit NvidiaGpuKey) = {''cpu'', NvidiaGpuKey, ''memory'', ''storage'', ''network''}"
proof (intro conjI impI)
  assume "resourceName \<notin> dom (PricesUnit NvidiaGpuKey)"
  then have "PricesUnit NvidiaGpuKey resourceName = None"
    by (simp add: domIff)
  with assms show "GetResourceValue NvidiaGpuKey resourceName res = Inl NilPointerDereference"
    using GetResourceValue_no_unit [of res resourceName quantity q NvidiaGpuKey] by simp
next
  assume "resourceName \<in> dom (PricesUnit NvidiaGpuKey)"
  then obtain u where "PricesUnit NvidiaGpuKey resourceName = Some u"
    by (auto simp: domIff)
  then show "GetResourceValue NvidiaGpuKey resourceName res \<noteq> Inl NilPointerDereference"
    using GetResourceValue_present [of res resourceName quantity q NvidiaGpuKey u] assms(1,2)
    by (simp add: int64_of_float64_int)
next
  show "dom (PricesUnit NvidiaGpuKey) = {''cpu'', NvidiaGpuKey, ''memory'', ''storage'', ''network''}"
    by (rule PricesUnit_dom)
qed

theorem GetResourceValue_nil_unit_witness:
  "GetResourceValue ''nvidia.com/gpu'' ''gpu-tesla-v100'' [''gpu-tesla-v100'' \<mapsto> milli_detail 1000]
     = Inl NilPointerDereference
   \<and> ''gpu-tesla-v100'' \<notin> dom (PricesUnit ''nvidia.com/gpu'')
   \<and> GetResourceValue ''nvidia.com/gpu'' ''cpu'' [''cpu'' \<mapsto> milli_detail 1000]
     \<noteq> Inl NilPointerDereference"
  using GetResourceValue_nil_unit [of "[''gpu-tesla-v100'' \<mapsto> milli_detail 1000]" "''gpu-tesla-v100''"
      "milli_detail 1000" "NewMilliQuantity 1000 ''DecimalSI''" "''nvidia.com/gpu''"]
    GetResourceValue_nil_unit [of "[''cpu'' \<mapsto> milli_detail 1000]" "''cpu''"
      "milli_detail 1000" "NewMilliQuantity 1000 ''DecimalSI''" "''nvidia.com/gpu''"]
  by (simp add: milli_detail_def NewMilliQuantity_def MilliValue_def)

section \<open>Properties of billing records\<close>

text \<open>
  C3. A billing record that the construction accepts is the record that was given, and it
  has a payment and no transfer when its type is consumption, and a transfer and no
  payment when its type is transfer; a record of type consumption with no payment or with
  a transfer, and a record of type transfer with no transfer or with a payment, is
  rejected with a validation failure.
\<close>

theorem NewBilling_type_invariant:
  "(NewBilling b = Inr b' \<longrightarrow>
      b' = b
    \<and> (Billing.Type b' = Consumption_Type \<longrightarrow>
          Billing.Payment b' \<noteq> None \<and> Billing.Transfer b' = None)
    \<and> (Billing.Type b' = Transfer_Type \<longrightarrow>
          Billing.Transfer b' \<noteq> None \<and> Billing.Payment b' = None))
   \<and> (Billing.Type b = Consumption_Type
        \<and> (Billing.Payment b = None \<or> Billing.Transfer b \<noteq> None) \<longrightarrow>
      NewBilling b = Inl WrongSubRecord)
   \<and> (Billing.Type b = Transfer_Type
        \<and> (Billing.Transfer b = None \<or> Billing.Payment b \<noteq> None) \<longrightarrow>
      NewBilling b = Inl WrongSubRecord)"
  by (auto simp: NewBilling_def split: if_splits)

theorem NewBilling_type_invariant_witness:
  "NewBilling sample_billing = Inr sample_billing
   \<and> Billing.Type sample_billing = Consumption_Type
   \<and> Billing.Payment sample_billing = Some sample_payment
   \<and> Billing.Transfer sample_billing = None
   \<and> NewBilling sample_transfer_billing = Inr sample_transfer_billing
   \<and> Billing.Type sample_transfer_billing = Transfer_Type
   \<and> Billing.Transfer sample_transfer_billing = Some sample_transfer
   \<and> Billing.Payment sample_transfer_billing = None
   \<and> Billing.Type (sample_billing\<lparr>Billing.Transfer := Some sample_transfer\<rparr>) = Consumption_Type
   \<and> NewBilling (sample_billing\<lparr>Billing.Transfer := Some sample_transfer\<rparr>) = Inl WrongSubRecord
   \<and> Billing.Type (sample_billing\<lparr>Billing.Payment := None\<rparr>) = Consumption_Type
   \<and> NewBilling (sample_billing\<lparr>Billing.Payment := None\<rparr>) = Inl WrongSubRecord
   \<and> Billing.Type (sample_transfer_billing\<lparr>Billing.Payment := Some sample_payment\<rparr>) = Transfer_Type
   \<and> NewBilling (sample_transfer_billing\<lparr>Billing.Payment := Some sample_payment\<rparr>)
       = Inl WrongSubRecord"
proof -
  have ok: "NewBilling sample_billing = Inr sample_billing"
    by (simp add: NewBilling_def sample_billing_def sample_app_costs_def AppCosts_sum_def)
  have ok_t: "NewBilling sample_transfer_billing = Inr sample_transfer_billing"
    by (simp add: NewBilling_def sample_transfer_billing_def)
  have c: "Billing.Type sample_billing = Consumption_Type"
    and t: "Billing.Type sample_transfer_billing = Transfer_Type"
    by (simp_all add: sample_billing_def sample_transfer_billing_def)
  from NewBilling_type_invariant [of sample_billing sample_billing] ok c
  have 1: "Billing.Payment sample_billing \<noteq> None \<and> Billing.Transfer sample_billing = None"
    by simp
  from NewBilling_type_invariant [of sample_transfer_billing sample_transfer_billing] ok_t t
  have 2: "Billing.Transfer sample_transfer_billing \<noteq> None
      \<and> Billing.Payment sample_transfer_billing = None"
    by simp
  from NewBilling_type_invariant [of "sample_billing\<lparr>Billing.Transfer := Some sample_transfer\<rparr>"] c
  have 3: "NewBilling (sample_billing\<lparr>Billing.Transfer := Some sample_transfer\<rparr>) = Inl WrongSubRecord"
    by simp
  from NewBilling_type_invariant [of "sample_billing\<lparr>Billing.Payment := None\<rparr>"] c
  have 4: "NewBilling (sample_billing\<lparr>Billing.Payment := None\<rparr>) = Inl WrongSubRecord"
    by simp
  from NewBilling_type_invariant [of "sample_transfer_billing\<lparr>Billing.Payment := Some sample_payment\<rparr>"] t
  have 5: "NewBilling (sample_transfer_billing\<lparr>Billing.Payment := Some sample_payment\<rparr>)
       = Inl WrongSubRecord"
    by simp
  have p: "Billing.Payment sample_billing = Some sample_payment"
    and tr: "Billing.Transfer sample_transfer_billing = Some sample_transfer"
    by (simp_all add: sample_billing_def sample_transfer_billing_def)
  from ok ok_t c t 1 2 3 4 5 p tr show ?thesis by simp
qed

text \<open>
  C5. A billing record that the construction accepts and whose list of application costs
  is not empty has as its amount the sum of the amounts of its application costs; a
  record with a non-empty list whose amount is not that sum is rejected with a validation
  failure.
\<close>

theorem NewBilling_amount_sum:
  "(NewBilling b = Inr b' \<and> Billing.AppCosts b' \<noteq> [] \<longrightarrow>
      sint (Billing.Amount b') = (\<Sum>c\<leftarrow>Billing.AppCosts b'. sint (AppCost.Amount c)))
   \<and> (Billing.AppCosts b \<noteq> []
        \<and> sint (Billing.Amount b) \<noteq> (\<Sum>c\<leftarrow>Billing.AppCosts b. sint (AppCost.Amount c)) \<longrightarrow>
      (\<exists>failure. NewBilling b = Inl failure))"
  by (auto simp: NewBilling_def AppCosts_sum_def split: if_splits)

theorem NewBilling_amount_sum_witness:
  "NewBilling sample_billing = Inr sample_billing
   \<and> length (Billing.AppCosts sample_billing) = 2
   \<and> sint (Billing.Amount sample_billing) = 83500
   \<and> (\<Sum>c\<leftarrow>Billing.AppCosts sample_billing. sint (AppCost.Amount c)) = 83500
   \<and> sint (Billing.Amount (sample_billing\<lparr>Billing.Amount := 83501\<rparr>)) = 83501
   \<and> (\<exists>failure. NewBilling (sample_billing\<lparr>Billing.Amount := 83501\<rparr>) = Inl failure)"
proof -
  have ok: "NewBilling sample_billing = Inr sample_billing"
    by (simp add: NewBilling_def sample_billing_def sample_app_costs_def AppCosts_sum_def)
  have ne: "Billing.AppCosts sample_billing \<noteq> []"
    and len: "length (Billing.AppCosts sample_billing) = 2"
    and a: "sint (Billing.Amount sample_billing) = 83500"
    and s: "(\<Sum>c\<leftarrow>Billing.AppCosts sample_billing. sint (AppCost.Amount c)) = 83500"
    by (simp_all add: sample_billing_def sample_app_costs_def)
  from NewBilling_amount_sum [of sample_billing sample_billing] ok ne
  have 1: "sint (Billing.Amount sample_billing)
      = (\<Sum>c\<leftarrow>Billing.AppCosts sample_billing. sint (AppCost.Amount c))"
    by simp
  have a': "sint (Billing.Amount (sample_billing\<lparr>Billing.Amount := 83501\<rparr>)) = 83501"
    by simp
  from NewBilling_amount_sum [of "sample_billing\<lparr>Billing.Amount := 83501\<rparr>"] ne s
  have 2: "\<exists>failure. NewBilling (sample_billing\<lparr>Billing.Amount := 83501\<rparr>) = Inl failure"
    by simp
  from ok len a s a' 2 show ?thesis by (intro conjI)
qed

end
